theory Spec2Isabelle
  imports Complex_Main
begin

section \<open>Numbers and randomness\<close>

text \<open>
  The page computes with JavaScript numbers, which are IEEE doubles. Two models are used.

  The closed-form kernels are modelled over \<^typ>\<open>real\<close>: the theorems about them
  read the formulas over the reals and say nothing about overflow or rounding.

  Where a property ranges over every input of \<^verbatim>\<open>useCurve\<close>, the generator is modelled a
  second time over a type \<open>jsnum\<close> of finite values, the two infinities and NaN. Finite
  values are kept exact (no rounding, no underflow, an unsigned zero); a result whose
  magnitude reaches the overflow threshold of round-to-nearest becomes an infinity; the
  infinities and NaN follow IEEE 754.

  \<^verbatim>\<open>Math.random()\<close> is modelled by a sequence \<open>rnd :: nat \<Rightarrow> real\<close> of draws together with
  a counter of the draws consumed so far: the \<open>c\<close>-th call returns \<open>rnd c\<close>.
\<close>

section \<open>The curve generator \<^verbatim>\<open>useCurve\<close>\<close>

datatype model = Exp | Logistic

text \<open>A generated point \<^verbatim>\<open>{ t, y, yLo, yHi }\<close>; the fields carry the prefix \<open>pt_\<close>.\<close>

record point =
  pt_t :: real
  pt_y :: real
  pt_yLo :: real
  pt_yHi :: real

text \<open>\<^verbatim>\<open>const step = Math.max(1, Math.floor(tMax / 60))\<close>\<close>

definition step_of :: "real \<Rightarrow> real" where
  "step_of tMax = max 1 (of_int \<lfloor>tMax / 60\<rfloor>)"

text \<open>
  The ideal value of one iteration:
  \<^verbatim>\<open>let ideal = 1;
  if (model === "exp") ideal = Math.exp(-k * t);
  else { const L = 1, x0 = tMax * 0.25, s = Math.max(1e-3, 10 * k);
         ideal = 1 - (L / (1 + Math.exp(-s * (t - x0)))); }\<close>
\<close>

definition steepness :: "real \<Rightarrow> real" where
  "steepness k = max (1 / 1000) (10 * k)"

definition ideal_of :: "model \<Rightarrow> real \<Rightarrow> real \<Rightarrow> real \<Rightarrow> real" where
  "ideal_of m k tMax t =
     (case m of
        Exp \<Rightarrow> exp (- k * t)
      | Logistic \<Rightarrow>
          (let L = 1; x0 = tMax * (25 / 100); s = steepness k
           in 1 - (L / (1 + exp (- s * (t - x0))))))"

text \<open>
  \<^verbatim>\<open>const eps = noise ? (Math.random() - 0.5) * 2 * noise * ideal : 0\<close>:
  a number is truthy when it is not zero; \<open>r\<close> is the draw.
\<close>

definition eps_of :: "real \<Rightarrow> real \<Rightarrow> real \<Rightarrow> real" where
  "eps_of noise r ideal = (if noise \<noteq> 0 then (r - 5 / 10) * 2 * noise * ideal else 0)"

text \<open>
  \<^verbatim>\<open>const y = Math.max(0, Math.min(1, ideal + eps));
  pts.push({ t, y, yLo: Math.max(0, y * 0.9), yHi: Math.min(1, y * 1.1) })\<close>
\<close>

definition mk_point :: "real \<Rightarrow> real \<Rightarrow> real \<Rightarrow> point" where
  "mk_point t ideal eps =
     (let y = max 0 (min 1 (ideal + eps))
      in \<lparr>pt_t = t, pt_y = y, pt_yLo = max 0 (y * (9 / 10)), pt_yHi = min 1 (y * (11 / 10))\<rparr>)"

text \<open>
  The loop \<^verbatim>\<open>for (let t = 0; t <= tMax; t += step)\<close>, from the current \<open>t\<close> and the number
  \<open>c\<close> of draws consumed; a draw is consumed only when \<open>noise\<close> is truthy.
\<close>

function curve_loop ::
  "model \<Rightarrow> real \<Rightarrow> real \<Rightarrow> real \<Rightarrow> (nat \<Rightarrow> real) \<Rightarrow> real \<Rightarrow> nat \<Rightarrow> point list" where
  "curve_loop m k tMax noise rnd t c =
     (if t \<le> tMax
      then (let ideal = ideal_of m k tMax t;
                eps = eps_of noise (rnd c) ideal
            in mk_point t ideal eps #
               curve_loop m k tMax noise rnd (t + step_of tMax) (if noise \<noteq> 0 then Suc c else c))
      else [])"
  by pat_completeness auto
termination
proof (relation "measure (\<lambda>(m, k, tMax, noise, rnd, t, c). nat (\<lfloor>tMax - t\<rfloor> + 1))")
  show "wf (measure (\<lambda>(m, k, tMax, noise, rnd, t, c). nat (\<lfloor>tMax - t\<rfloor> + 1)))"
    by simp
next
  fix m :: model and k tMax noise :: real and rnd :: "nat \<Rightarrow> real" and t :: real and c :: nat
    and x xa :: real
  assume le: "t \<le> tMax"
  have s1: "1 \<le> step_of tMax"
    by (simp add: step_of_def)
  have "tMax - (t + step_of tMax) \<le> tMax - t - 1"
    using s1 by simp
  then have "\<lfloor>tMax - (t + step_of tMax)\<rfloor> \<le> \<lfloor>tMax - t - 1\<rfloor>"
    by (rule floor_mono)
  also have "\<dots> = \<lfloor>tMax - t\<rfloor> - 1"
    by simp
  finally have d: "\<lfloor>tMax - (t + step_of tMax)\<rfloor> + 1 \<le> \<lfloor>tMax - t\<rfloor>" by simp
  have "0 \<le> \<lfloor>tMax - t\<rfloor>"
    using le by simp
  with d show "((m, k, tMax, noise, rnd, t + step_of tMax, if noise \<noteq> 0 then Suc c else c),
                (m, k, tMax, noise, rnd, t, c))
         \<in> measure (\<lambda>(m, k, tMax, noise, rnd, t, c). nat (\<lfloor>tMax - t\<rfloor> + 1))"
    by simp
qed

declare curve_loop.simps [simp del]

definition useCurve :: "model \<Rightarrow> real \<Rightarrow> real \<Rightarrow> real \<Rightarrow> (nat \<Rightarrow> real) \<Rightarrow> point list" where
  "useCurve m k tMax noise rnd = curve_loop m k tMax noise rnd 0 0"

text \<open>
  \<^verbatim>\<open>WeightLossProjection\<close>:
  \<^verbatim>\<open>const t90 = Math.log(10) / Math.max(1e-6, k); const tMax = Math.ceil(t90 * 1.2)\<close>
\<close>

definition t90 :: "real \<Rightarrow> real" where
  "t90 k = ln 10 / max (1 / 1000000) k"

definition tMax_of :: "real \<Rightarrow> real" where
  "tMax_of k = of_int \<lceil>t90 k * (12 / 10)\<rceil>"

section \<open>The curve generator on JavaScript numbers\<close>

text \<open>
  A JavaScript number that is finite, \<^verbatim>\<open>Infinity\<close>, \<^verbatim>\<open>-Infinity\<close> or \<^verbatim>\<open>NaN\<close>.
\<close>

datatype jsnum = Fin real | PInf | NInf | NaN

text \<open>
  The largest double is \<open>2 ^ 1024 - 2 ^ 971\<close>. Under round-to-nearest a result becomes an
  infinity when its magnitude reaches \<open>2 ^ 1024 - 2 ^ 970\<close>, half a unit in the last place
  beyond it.
\<close>

definition overflow_threshold :: real where
  "overflow_threshold = 2 ^ 1024 - 2 ^ 970"

definition ovf :: "real \<Rightarrow> jsnum" where
  "ovf r = (if overflow_threshold \<le> r then PInf
            else if r \<le> - overflow_threshold then NInf
            else Fin r)"

text \<open>
  Unary minus, \<^verbatim>\<open>+\<close>, \<^verbatim>\<open>-\<close>, \<^verbatim>\<open>*\<close> and \<^verbatim>\<open>/\<close>. NaN is contagious;
  \<open>Infinity - Infinity\<close>, \<open>0 * Infinity\<close>, \<open>Infinity / Infinity\<close> and \<open>0 / 0\<close> are NaN.
  Zero is taken as \<open>+0\<close> where its sign would matter (in a divisor); \<^verbatim>\<open>useCurve\<close> never
  divides by zero.
\<close>

fun jneg :: "jsnum \<Rightarrow> jsnum" where
  "jneg (Fin a) = Fin (- a)"
| "jneg PInf = NInf"
| "jneg NInf = PInf"
| "jneg NaN = NaN"

fun jadd :: "jsnum \<Rightarrow> jsnum \<Rightarrow> jsnum" where
  "jadd NaN b = NaN"
| "jadd a NaN = NaN"
| "jadd (Fin a) (Fin b) = ovf (a + b)"
| "jadd PInf NInf = NaN"
| "jadd NInf PInf = NaN"
| "jadd PInf b = PInf"
| "jadd a PInf = PInf"
| "jadd NInf b = NInf"
| "jadd a NInf = NInf"

definition jsub :: "jsnum \<Rightarrow> jsnum \<Rightarrow> jsnum" where
  "jsub a b = jadd a (jneg b)"

fun jmul :: "jsnum \<Rightarrow> jsnum \<Rightarrow> jsnum" where
  "jmul NaN b = NaN"
| "jmul a NaN = NaN"
| "jmul (Fin a) (Fin b) = ovf (a * b)"
| "jmul (Fin a) PInf = (if a = 0 then NaN else if 0 < a then PInf else NInf)"
| "jmul (Fin a) NInf = (if a = 0 then NaN else if 0 < a then NInf else PInf)"
| "jmul PInf (Fin b) = (if b = 0 then NaN else if 0 < b then PInf else NInf)"
| "jmul NInf (Fin b) = (if b = 0 then NaN else if 0 < b then NInf else PInf)"
| "jmul PInf PInf = PInf"
| "jmul PInf NInf = NInf"
| "jmul NInf PInf = NInf"
| "jmul NInf NInf = PInf"

fun jdiv :: "jsnum \<Rightarrow> jsnum \<Rightarrow> jsnum" where
  "jdiv NaN b = NaN"
| "jdiv a NaN = NaN"
| "jdiv (Fin a) (Fin b) =
     (if b = 0 then (if a = 0 then NaN else if 0 < a then PInf else NInf) else ovf (a / b))"
| "jdiv (Fin a) PInf = Fin 0"
| "jdiv (Fin a) NInf = Fin 0"
| "jdiv PInf (Fin b) = (if 0 \<le> b then PInf else NInf)"
| "jdiv NInf (Fin b) = (if 0 \<le> b then NInf else PInf)"
| "jdiv a b = NaN"

text \<open>
  \<^verbatim>\<open>Math.exp\<close>, \<^verbatim>\<open>Math.max\<close> and \<^verbatim>\<open>Math.min\<close>. The last two return NaN when an
  argument is NaN.
\<close>

fun jexp :: "jsnum \<Rightarrow> jsnum" where
  "jexp (Fin a) = ovf (exp a)"
| "jexp PInf = PInf"
| "jexp NInf = Fin 0"
| "jexp NaN = NaN"

fun jmax :: "jsnum \<Rightarrow> jsnum \<Rightarrow> jsnum" where
  "jmax NaN b = NaN"
| "jmax a NaN = NaN"
| "jmax PInf b = PInf"
| "jmax a PInf = PInf"
| "jmax NInf b = b"
| "jmax a NInf = a"
| "jmax (Fin a) (Fin b) = Fin (max a b)"

fun jmin :: "jsnum \<Rightarrow> jsnum \<Rightarrow> jsnum" where
  "jmin NaN b = NaN"
| "jmin a NaN = NaN"
| "jmin NInf b = NInf"
| "jmin a NInf = NInf"
| "jmin PInf b = b"
| "jmin a PInf = a"
| "jmin (Fin a) (Fin b) = Fin (min a b)"

text \<open>
  The body of the loop of \<^verbatim>\<open>useCurve\<close> once more, operation by operation. The arguments
  \<open>k\<close>, \<open>tMax\<close>, \<open>noise\<close> and the draws are finite numbers; inside the loop \<open>t \<le> tMax\<close>,
  so \<open>t\<close> is finite too.
  \<^verbatim>\<open>let ideal = 1;
  if (model === "exp") ideal = Math.exp(-k * t);
  else { const L = 1, x0 = tMax * 0.25, s = Math.max(1e-3, 10 * k);
         ideal = 1 - (L / (1 + Math.exp(-s * (t - x0)))); }\<close>
\<close>

definition js_ideal :: "model \<Rightarrow> real \<Rightarrow> real \<Rightarrow> real \<Rightarrow> jsnum" where
  "js_ideal m k tMax t =
     (case m of
        Exp \<Rightarrow> jexp (jmul (jneg (Fin k)) (Fin t))
      | Logistic \<Rightarrow>
          (let L = Fin 1;
               x0 = jmul (Fin tMax) (Fin (25 / 100));
               s = jmax (Fin (1 / 1000)) (jmul (Fin 10) (Fin k))
           in jsub (Fin 1) (jdiv L (jadd (Fin 1) (jexp (jmul (jneg s) (jsub (Fin t) x0)))))))"

text \<open>
  \<^verbatim>\<open>const eps = noise ? (Math.random() - 0.5) * 2 * noise * ideal : 0\<close>; the product
  associates to the left.
\<close>

definition js_eps :: "real \<Rightarrow> real \<Rightarrow> jsnum \<Rightarrow> jsnum" where
  "js_eps noise r ideal =
     (if noise \<noteq> 0
      then jmul (jmul (jmul (jsub (Fin r) (Fin (5 / 10))) (Fin 2)) (Fin noise)) ideal
      else Fin 0)"

text \<open>
  \<^verbatim>\<open>const y = Math.max(0, Math.min(1, ideal + eps));
  pts.push({ t, y, yLo: Math.max(0, y * 0.9), yHi: Math.min(1, y * 1.1) })\<close>
\<close>

record js_point =
  jp_t :: real
  jp_y :: jsnum
  jp_yLo :: jsnum
  jp_yHi :: jsnum

definition js_mk_point :: "real \<Rightarrow> jsnum \<Rightarrow> jsnum \<Rightarrow> js_point" where
  "js_mk_point t ideal eps =
     (let y = jmax (Fin 0) (jmin (Fin 1) (jadd ideal eps))
      in \<lparr>jp_t = t, jp_y = y,
          jp_yLo = jmax (Fin 0) (jmul y (Fin (9 / 10))),
          jp_yHi = jmin (Fin 1) (jmul y (Fin (11 / 10)))\<rparr>)"

text \<open>
  The loop \<^verbatim>\<open>for (let t = 0; t <= tMax; t += step)\<close>. If \<open>t + step\<close> overflowed, the
  test \<open>t \<le> tMax\<close> would fail for the infinity as it does for the real sum.
\<close>

function js_curve_loop ::
  "model \<Rightarrow> real \<Rightarrow> real \<Rightarrow> real \<Rightarrow> (nat \<Rightarrow> real) \<Rightarrow> real \<Rightarrow> nat \<Rightarrow> js_point list" where
  "js_curve_loop m k tMax noise rnd t c =
     (if t \<le> tMax
      then (let ideal = js_ideal m k tMax t;
                eps = js_eps noise (rnd c) ideal
            in js_mk_point t ideal eps #
               js_curve_loop m k tMax noise rnd (t + step_of tMax) (if noise \<noteq> 0 then Suc c else c))
      else [])"
  by pat_completeness auto
termination
proof (relation "measure (\<lambda>(m, k, tMax, noise, rnd, t, c). nat (\<lfloor>tMax - t\<rfloor> + 1))")
  show "wf (measure (\<lambda>(m, k, tMax, noise, rnd, t, c). nat (\<lfloor>tMax - t\<rfloor> + 1)))"
    by simp
next
  fix m :: model and k tMax noise :: real and rnd :: "nat \<Rightarrow> real" and t :: real and c :: nat
    and x xa :: jsnum
  assume le: "t \<le> tMax"
  have s1: "1 \<le> step_of tMax"
    by (simp add: step_of_def)
  have "tMax - (t + step_of tMax) \<le> tMax - t - 1"
    using s1 by simp
  then have "\<lfloor>tMax - (t + step_of tMax)\<rfloor> \<le> \<lfloor>tMax - t - 1\<rfloor>"
    by (rule floor_mono)
  also have "\<dots> = \<lfloor>tMax - t\<rfloor> - 1"
    by simp
  finally have d: "\<lfloor>tMax - (t + step_of tMax)\<rfloor> + 1 \<le> \<lfloor>tMax - t\<rfloor>" by simp
  have "0 \<le> \<lfloor>tMax - t\<rfloor>"
    using le by simp
  with d show "((m, k, tMax, noise, rnd, t + step_of tMax, if noise \<noteq> 0 then Suc c else c),
                (m, k, tMax, noise, rnd, t, c))
         \<in> measure (\<lambda>(m, k, tMax, noise, rnd, t, c). nat (\<lfloor>tMax - t\<rfloor> + 1))"
    by simp
qed

declare js_curve_loop.simps [simp del]

definition js_useCurve :: "model \<Rightarrow> real \<Rightarrow> real \<Rightarrow> real \<Rightarrow> (nat \<Rightarrow> real) \<Rightarrow> js_point list" where
  "js_useCurve m k tMax noise rnd = js_curve_loop m k tMax noise rnd 0 0"

text \<open>A point of the real-valued model, read as a point of finite numbers.\<close>

definition js_of_point :: "point \<Rightarrow> js_point" where
  "js_of_point p =
     \<lparr>jp_t = pt_t p, jp_y = Fin (pt_y p), jp_yLo = Fin (pt_yLo p), jp_yHi = Fin (pt_yHi p)\<rparr>"

section \<open>The drivers demo \<^verbatim>\<open>DriversOfLiking\<close>\<close>

text \<open>
  \<^verbatim>\<open>SAMPLE_FEATURES\<close> is an object literal with string keys; \<^verbatim>\<open>Object.entries\<close> lists
  them in the order they are written, so the table is an association list. The weights
  are the decimal literals of the source, written as fractions.
\<close>

definition SAMPLE_FEATURES :: "(string \<times> (string \<times> real) list) list" where
  "SAMPLE_FEATURES =
     [(''Day 1'',
        [(''Freshness'', 24 / 100), (''Sillage'', 18 / 100), (''Longevity'', 12 / 100),
         (''Price'', 6 / 100), (''Brand'', 5 / 100), (''Eco Score'', 8 / 100),
         (''Package'', 10 / 100), (''Texture'', 17 / 100)]),
      (''Day 7'',
        [(''Freshness'', 18 / 100), (''Sillage'', 22 / 100), (''Longevity'', 16 / 100),
         (''Price'', 5 / 100), (''Brand'', 4 / 100), (''Eco Score'', 9 / 100),
         (''Package'', 8 / 100), (''Texture'', 18 / 100)]),
      (''Day 14'',
        [(''Freshness'', 15 / 100), (''Sillage'', 25 / 100), (''Longevity'', 19 / 100),
         (''Price'', 4 / 100), (''Brand'', 3 / 100), (''Eco Score'', 10 / 100),
         (''Package'', 7 / 100), (''Texture'', 17 / 100)])]"

text \<open>The three labels the chips offer: \<^verbatim>\<open>(["Day 1", "Day 7", "Day 14"] as const)\<close>.\<close>

definition time_points :: "string list" where
  "time_points = [''Day 1'', ''Day 7'', ''Day 14'']"

text \<open>
  \<^verbatim>\<open>Object.entries(undefined)\<close> throws a \<^verbatim>\<open>TypeError\<close>: that is what a label outside the
  table leads to.
\<close>

datatype js_error = TypeError

text \<open>An entry \<^verbatim>\<open>{ name, value }\<close> of the chart; the fields carry the prefix \<open>f_\<close>.\<close>

record feature =
  f_name :: string
  f_value :: real

text \<open>
  \<^verbatim>\<open>Array.prototype.sort(cmp)\<close> is stable and puts \<open>a\<close> before \<open>b\<close> when \<open>cmp(a, b) < 0\<close>:
  a stable insertion sort by the comparator.
\<close>

fun insort_cmp :: "('a \<Rightarrow> 'a \<Rightarrow> real) \<Rightarrow> 'a \<Rightarrow> 'a list \<Rightarrow> 'a list" where
  "insort_cmp cmp x [] = [x]"
| "insort_cmp cmp x (y # ys) =
     (if cmp x y \<le> 0 then x # y # ys else y # insort_cmp cmp x ys)"

definition sort_cmp :: "('a \<Rightarrow> 'a \<Rightarrow> real) \<Rightarrow> 'a list \<Rightarrow> 'a list" where
  "sort_cmp cmp xs = foldr (insort_cmp cmp) xs []"

text \<open>The comparators \<^verbatim>\<open>(a, b) => b.value - a.value\<close> and \<^verbatim>\<open>(a, b) => b[1] - a[1]\<close>.\<close>

definition by_value_desc :: "feature \<Rightarrow> feature \<Rightarrow> real" where
  "by_value_desc a b = f_value b - f_value a"

definition by_weight_desc :: "string \<times> real \<Rightarrow> string \<times> real \<Rightarrow> real" where
  "by_weight_desc a b = snd b - snd a"

text \<open>
  \<^verbatim>\<open>Object.entries(base).map(([k, v]) =>
     ({ name: k, value: Math.max(0, v + (Math.random() - 0.5) * 2 * noise) }))\<close>:
  one draw per entry, in order, also when \<open>noise\<close> is zero.
\<close>

fun perturb :: "real \<Rightarrow> (nat \<Rightarrow> real) \<Rightarrow> nat \<Rightarrow> (string \<times> real) list \<Rightarrow> feature list" where
  "perturb noise rnd c [] = []"
| "perturb noise rnd c ((k, v) # es) =
     \<lparr>f_name = k, f_value = max 0 (v + (rnd c - 5 / 10) * 2 * noise)\<rparr> #
     perturb noise rnd (Suc c) es"

definition features :: "string \<Rightarrow> real \<Rightarrow> (nat \<Rightarrow> real) \<Rightarrow> js_error + feature list" where
  "features tp noise rnd =
     (case map_of SAMPLE_FEATURES tp of
        None \<Rightarrow> Inl TypeError
      | Some base \<Rightarrow> Inr (perturb noise rnd 0 base))"

text \<open>\<^verbatim>\<open>const sorted = [...features].sort((a, b) => b.value - a.value)\<close>\<close>

definition sorted_features :: "string \<Rightarrow> real \<Rightarrow> (nat \<Rightarrow> real) \<Rightarrow> js_error + feature list" where
  "sorted_features tp noise rnd =
     (case features tp noise rnd of
        Inl e \<Rightarrow> Inl e
      | Inr fs \<Rightarrow> Inr (sort_cmp by_value_desc fs))"

text \<open>
  \<^verbatim>\<open>for (let i = 0; i < order.length; i++) if (order[i] === ref[i]) matches++;\<close>
  Past the end of \<open>ref\<close> the read is \<^verbatim>\<open>undefined\<close>, which equals no name.
\<close>

fun count_matches :: "string list \<Rightarrow> string list \<Rightarrow> nat" where
  "count_matches [] ref = 0"
| "count_matches (x # order) [] = 0"
| "count_matches (x # order) (r # ref) = (if x = r then 1 else 0) + count_matches order ref"

text \<open>
  \<^verbatim>\<open>const ref = Object.entries(SAMPLE_FEATURES["Day 1"]).sort((a, b) => b[1] - a[1]).map(([n]) => n);
  const order = [...features].sort((a, b) => b.value - a.value).map((f) => f.name);
  ...
  return (matches / order.length) * 0.3 + 0.7 - noise * 0.5;\<close>
  Every label of the table has eight entries, so \<open>order\<close> is not empty. (For an empty
  \<open>order\<close> JavaScript computes \<open>0 / 0\<close>, a NaN, which the reals do not have.)
\<close>

definition stability_of :: "feature list \<Rightarrow> real \<Rightarrow> js_error + real" where
  "stability_of fs noise =
     (case map_of SAMPLE_FEATURES ''Day 1'' of
        None \<Rightarrow> Inl TypeError
      | Some day1 \<Rightarrow>
          (let ref = map fst (sort_cmp by_weight_desc day1);
               order = map f_name (sort_cmp by_value_desc fs);
               matches = count_matches order ref
           in Inr ((real matches / real (length order)) * (3 / 10) + 7 / 10 - noise * (5 / 10))))"

definition stability :: "string \<Rightarrow> real \<Rightarrow> (nat \<Rightarrow> real) \<Rightarrow> js_error + real" where
  "stability tp noise rnd =
     (case features tp noise rnd of
        Inl e \<Rightarrow> Inl e
      | Inr fs \<Rightarrow> stability_of fs noise)"

text \<open>
  The number the page shows, before \<^verbatim>\<open>toFixed(2)\<close> formats it:
  \<^verbatim>\<open>Math.max(0.5, Math.min(1, stability))\<close>
\<close>

definition stability_shown :: "string \<Rightarrow> real \<Rightarrow> (nat \<Rightarrow> real) \<Rightarrow> js_error + real" where
  "stability_shown tp noise rnd =
     (case stability tp noise rnd of
        Inl e \<Rightarrow> Inl e
      | Inr s \<Rightarrow> Inr (max (5 / 10) (min 1 s)))"

section \<open>The comparison table \<^verbatim>\<open>AzureComparison\<close>\<close>

text \<open>A row \<^verbatim>\<open>{ name, classic, fabric }\<close>; the fields carry the prefix \<open>cap_\<close>.\<close>

record capability =
  cap_name :: string
  cap_classic :: bool
  cap_fabric :: bool

text \<open>
  Two of the names hold U+2011 (a non-breaking hyphen), written here as its three bytes in
  UTF-8.
\<close>

definition nb_hyphen :: string where
  "nb_hyphen = [CHR 0xE2, CHR 0x80, CHR 0x91]"

definition rows :: "capability list" where
  "rows =
     [\<lparr>cap_name = ''OneLake (unified storage)'', cap_classic = False, cap_fabric = True\<rparr>,
      \<lparr>cap_name = ''Delta / Lakehouse'', cap_classic = True, cap_fabric = True\<rparr>,
      \<lparr>cap_name = ''Pipelines / ADF'', cap_classic = True, cap_fabric = True\<rparr>,
      \<lparr>cap_name = ''AutoML / MLflow'', cap_classic = True, cap_fabric = True\<rparr>,
      \<lparr>cap_name = ''Real'' @ nb_hyphen @ ''Time Intelligence (KQL)'',
         cap_classic = False, cap_fabric = True\<rparr>,
      \<lparr>cap_name = ''Embedded Analytics (PBI)'', cap_classic = True, cap_fabric = True\<rparr>,
      \<lparr>cap_name = ''Shortcuts (no-copy links)'', cap_classic = False, cap_fabric = True\<rparr>,
      \<lparr>cap_name = ''MLOps registry'', cap_classic = True, cap_fabric = True\<rparr>]"

text \<open>
  The props \<^verbatim>\<open>AzureComparison\<close> passes to each row:
  \<^verbatim>\<open>rows.map((r) => <CapabilityRow key={r.name} name={r.name} classic={r.classic}
                  fabric={showFabric ? r.fabric : false} />)\<close>
\<close>

definition row_props :: "bool \<Rightarrow> capability \<Rightarrow> capability" where
  "row_props showFabric r =
     \<lparr>cap_name = cap_name r, cap_classic = cap_classic r,
      cap_fabric = (if showFabric then cap_fabric r else False)\<rparr>"

text \<open>
  What \<^verbatim>\<open>CapabilityRow\<close> shows in its three cells: the name, and
  \<^verbatim>\<open>{classic ? "Yes" : "\<emdash>"}\<close>, \<^verbatim>\<open>{fabric ? "Yes" : "\<emdash>"}\<close>, where the dash is U+2014.
\<close>

definition em_dash :: string where
  "em_dash = [CHR 0xE2, CHR 0x80, CHR 0x94]"

record row_cells =
  cell_name :: string
  cell_classic :: string
  cell_fabric :: string

definition CapabilityRow :: "capability \<Rightarrow> row_cells" where
  "CapabilityRow props =
     \<lparr>cell_name = cap_name props,
      cell_classic = (if cap_classic props then ''Yes'' else em_dash),
      cell_fabric = (if cap_fabric props then ''Yes'' else em_dash)\<rparr>"

definition AzureComparison :: "bool \<Rightarrow> row_cells list" where
  "AzureComparison showFabric = map (\<lambda>r. CapabilityRow (row_props showFabric r)) rows"

section \<open>Local state of the fragments\<close>

text \<open>
  Each fragment keeps its state in its own \<^verbatim>\<open>useState\<close> cells. The page's state is the
  record of the fragments' states; a handler is a function on it.
\<close>

record weight_loss_state =
  wl_k :: real
  wl_noise :: real
  wl_model :: model

record drivers_state =
  dl_tp :: string
  dl_noise :: real
  dl_selected :: "string option"

record page_state =
  weight_loss :: weight_loss_state
  pinned :: "(real \<times> real) option"
  drivers :: drivers_state
  showFabric :: bool
  openIdx :: "nat option"
  pauseAnim :: bool

text \<open>The initial values given to \<^verbatim>\<open>useState\<close>.\<close>

definition initial_state :: page_state where
  "initial_state =
     \<lparr>weight_loss = \<lparr>wl_k = 3 / 100, wl_noise = 2 / 100, wl_model = Exp\<rparr>,
      pinned = None,
      drivers = \<lparr>dl_tp = ''Day 1'', dl_noise = 0, dl_selected = None\<rparr>,
      showFabric = True,
      openIdx = Some 0,
      pauseAnim = False\<rparr>"

text \<open>The setters the controls are wired to.\<close>

definition setModel :: "model \<Rightarrow> page_state \<Rightarrow> page_state" where
  "setModel m s = s\<lparr>weight_loss := (weight_loss s)\<lparr>wl_model := m\<rparr>\<rparr>"

definition setTp :: "string \<Rightarrow> page_state \<Rightarrow> page_state" where
  "setTp d s = s\<lparr>drivers := (drivers s)\<lparr>dl_tp := d\<rparr>\<rparr>"

definition setShowFabric :: "bool \<Rightarrow> page_state \<Rightarrow> page_state" where
  "setShowFabric v s = s\<lparr>showFabric := v\<rparr>"

definition setOpenIdx :: "nat option \<Rightarrow> page_state \<Rightarrow> page_state" where
  "setOpenIdx v s = s\<lparr>openIdx := v\<rparr>"

text \<open>
  \<^verbatim>\<open>Toggle\<close>: \<^verbatim>\<open>onClick={() => onChange(!checked)}\<close>;
  \<^verbatim>\<open>Chip\<close>: \<^verbatim>\<open>onClick={onClick}\<close>.
\<close>

definition Toggle_click :: "bool \<Rightarrow> (bool \<Rightarrow> page_state \<Rightarrow> page_state) \<Rightarrow> page_state \<Rightarrow> page_state" where
  "Toggle_click checked onChange = onChange (\<not> checked)"

definition Chip_click :: "(page_state \<Rightarrow> page_state) \<Rightarrow> page_state \<Rightarrow> page_state" where
  "Chip_click onClick = onClick"

text \<open>
  The clicks on the page's switch, its chips and its milestone cards:
  \<^verbatim>\<open><Toggle checked={showFabric} onChange={setShowFabric} label="Show Fabric" />\<close>,
  \<^verbatim>\<open><Chip ... onClick={() => setModel("exp")}>\<close>, \<^verbatim>\<open><Chip ... onClick={() => setTp(d)}>\<close>,
  \<^verbatim>\<open>onClick={() => setOpenIdx(openIdx === i ? null : i)}\<close>.
\<close>

datatype click =
  ShowFabricToggle
| ModelChip model
| TimePointChip string
| MilestoneCard nat

fun handle :: "click \<Rightarrow> page_state \<Rightarrow> page_state" where
  "handle ShowFabricToggle s = Toggle_click (showFabric s) setShowFabric s"
| "handle (ModelChip m) s = Chip_click (setModel m) s"
| "handle (TimePointChip d) s = Chip_click (setTp d) s"
| "handle (MilestoneCard i) s = setOpenIdx (if openIdx s = Some i then None else Some i) s"

section \<open>Properties of the curve generator\<close>

lemma step_of_ge_1: "1 \<le> step_of tMax"
  by (simp add: step_of_def)

lemma curve_loop_head:
  "t \<le> tMax \<Longrightarrow>
   curve_loop m k tMax 0 rnd t c =
     mk_point t (ideal_of m k tMax t) 0 # curve_loop m k tMax 0 rnd (t + step_of tMax) c"
  by (subst curve_loop.simps) (simp add: Let_def eps_of_def)

lemma curve_loop_stop: "\<not> t \<le> tMax \<Longrightarrow> curve_loop m k tMax noise rnd t c = []"
  by (subst curve_loop.simps) simp

lemma curve_loop_noiseless:
  "\<forall>p \<in> set (curve_loop m k tMax 0 rnd t c).
     t \<le> pt_t p \<and> pt_y p = max 0 (min 1 (ideal_of m k tMax (pt_t p)))"
proof (induction m k tMax "0::real" rnd t c rule: curve_loop.induct)
  case (1 m k tMax rnd t c)
  show ?case
  proof (cases "t \<le> tMax")
    case True
    have "t \<le> t + step_of tMax" using step_of_ge_1 [of tMax] by simp
    then show ?thesis
      using "1.hyps" [OF True refl refl]
      by (subst curve_loop.simps) (auto simp add: mk_point_def Let_def eps_of_def True)
  next
    case False
    then show ?thesis
      by (subst curve_loop.simps) simp
  qed
qed

lemma curve_loop_sorted:
  "(\<And>a b. a \<le> b \<Longrightarrow> ideal_of m k tMax b \<le> ideal_of m k tMax a) \<Longrightarrow>
   sorted_wrt (\<lambda>p q. pt_y q \<le> pt_y p) (curve_loop m k tMax 0 rnd t c)"
proof (induction m k tMax "0::real" rnd t c rule: curve_loop.induct)
  case (1 m k tMax rnd t c)
  show ?case
  proof (cases "t \<le> tMax")
    case True
    have st: "t \<le> t + step_of tMax" using step_of_ge_1 [of tMax] by simp
    have tl: "sorted_wrt (\<lambda>p q. pt_y q \<le> pt_y p) (curve_loop m k tMax 0 rnd (t + step_of tMax) c)"
      using "1.hyps" [OF True refl refl] "1.prems" by simp
    have hdge: "pt_y q \<le> pt_y (mk_point t (ideal_of m k tMax t) 0)"
      if "q \<in> set (curve_loop m k tMax 0 rnd (t + step_of tMax) c)" for q
    proof -
      from curve_loop_noiseless [of m k tMax rnd "t + step_of tMax" c] that
      have q: "t + step_of tMax \<le> pt_t q" "pt_y q = max 0 (min 1 (ideal_of m k tMax (pt_t q)))"
        by auto
      have "t \<le> pt_t q" using q(1) st by linarith
      then have "ideal_of m k tMax (pt_t q) \<le> ideal_of m k tMax t"
        by (rule "1.prems")
      then show ?thesis
        using q(2) by (simp add: mk_point_def Let_def)
    qed
    show ?thesis
      using tl hdge by (simp add: curve_loop_head [OF True])
  next
    case False
    then show ?thesis by (simp add: curve_loop_stop)
  qed
qed

lemma ideal_exp_antitone:
  "0 \<le> k \<Longrightarrow> a \<le> b \<Longrightarrow> ideal_of Exp k tMax b \<le> ideal_of Exp k tMax a"
  by (simp add: ideal_of_def mult_left_mono)

lemma ideal_logistic_antitone:
  assumes "a \<le> b"
  shows "ideal_of Logistic k tMax b \<le> ideal_of Logistic k tMax a"
proof -
  have s: "0 < steepness k" by (simp add: steepness_def)
  have "- steepness k * (b - tMax * (25 / 100)) \<le> - steepness k * (a - tMax * (25 / 100))"
    using s assms by simp
  then have e: "exp (- steepness k * (b - tMax * (25 / 100))) \<le> exp (- steepness k * (a - tMax * (25 / 100)))"
    by simp
  have pos: "0 < 1 + exp (- steepness k * (b - tMax * (25 / 100)))"
    by (simp add: add_pos_pos)
  have "1 / (1 + exp (- steepness k * (a - tMax * (25 / 100)))) \<le> 1 / (1 + exp (- steepness k * (b - tMax * (25 / 100))))"
    using e pos by (intro divide_left_mono) (simp_all add: add_pos_pos)
  then show ?thesis
    by (simp add: ideal_of_def Let_def)
qed

lemma exp_sample_value:
  assumes k: "0 \<le> k" and p: "p \<in> set (curve_loop Exp k tMax 0 rnd 0 c)"
  shows "0 \<le> pt_t p \<and> pt_y p = exp (- k * pt_t p)"
proof -
  from curve_loop_noiseless [of Exp k tMax rnd 0 c] p
  have t: "0 \<le> pt_t p" and y: "pt_y p = max 0 (min 1 (ideal_of Exp k tMax (pt_t p)))"
    by auto
  have "- k * pt_t p \<le> 0"
    using k t by (simp add: mult_nonneg_nonneg)
  then have "exp (- k * pt_t p) \<le> 1"
    by (simp only: exp_le_one_iff)
  then show ?thesis
    using t y by (simp add: ideal_of_def)
qed

lemma exp_near_t90:
  fixes k t d :: real
  assumes k: "0 < k" and d: "\<bar>t - ln 10 / k\<bar> \<le> d"
  shows "exp (- k * d) / 10 \<le> exp (- k * t) \<and> exp (- k * t) \<le> exp (k * d) / 10"
proof -
  define z where "z = - k * (t - ln 10 / k)"
  have split: "- k * t = z + - ln 10"
    using k by (simp add: z_def algebra_simps)
  have e10: "exp (- ln (10::real)) = 1 / 10"
    by (simp add: exp_minus)
  have val: "exp (- k * t) = exp z / 10"
    by (simp only: split exp_add e10)
  have "\<bar>z\<bar> = k * \<bar>t - ln 10 / k\<bar>"
    using k by (simp add: z_def abs_mult)
  also have "\<dots> \<le> k * d"
    using k d by (simp only: mult_le_cancel_left_pos)
  finally have "- (k * d) \<le> z" "z \<le> k * d"
    by linarith+
  then have "exp (- (k * d)) \<le> exp z" "exp z \<le> exp (k * d)"
    by (simp_all only: exp_le_cancel_iff)
  then have "exp (- (k * d)) / 10 \<le> exp z / 10" "exp z / 10 \<le> exp (k * d) / 10"
    by simp_all
  then show ?thesis
    using val by simp
qed

lemma useCurve_exp_1_1:
  "useCurve Exp 1 1 0 rnd = [mk_point 0 1 0, mk_point 1 (exp (- 1)) 0]"
proof -
  have s: "step_of 1 = 1" by (simp add: step_of_def)
  have "curve_loop Exp 1 1 0 rnd 0 0 = mk_point 0 (ideal_of Exp 1 1 0) 0 # curve_loop Exp 1 1 0 rnd (0 + step_of 1) 0"
    by (rule curve_loop_head) simp
  moreover have "curve_loop Exp 1 1 0 rnd 1 0 = mk_point 1 (ideal_of Exp 1 1 1) 0 # curve_loop Exp 1 1 0 rnd (1 + step_of 1) 0"
    by (rule curve_loop_head) simp
  moreover have "curve_loop Exp 1 1 0 rnd 2 0 = []"
    by (rule curve_loop_stop) simp
  ultimately show ?thesis
    by (simp add: useCurve_def s ideal_of_def)
qed

lemma exp_minus_1_ge: "1 / 3 \<le> exp (- 1 :: real)"
proof -
  have "exp (1::real) \<le> 3" by (rule exp_le)
  then have "1 / 3 \<le> 1 / exp (1::real)"
    by (intro divide_left_mono) simp_all
  then show ?thesis by (simp add: exp_minus')
qed

lemma ln10_bounds_coarse: "1 < ln (10::real) \<and> ln (10::real) \<le> 9"
proof
  have "exp (1::real) < 10" using exp_le by linarith
  then have "ln (exp (1::real)) < ln 10" by (simp only: ln_less_cancel_iff exp_gt_zero)
  then show "1 < ln (10::real)" by simp
  show "ln (10::real) \<le> 9" using ln_le_minus_one [of "10::real"] by simp
qed

subsection \<open>The exponential model without noise\<close>

text \<open>
  Claim C1, as amended. For the exponential model with noise amplitude 0 and every
  positive rate \<open>k\<close> and positive horizon \<open>tMax\<close>: the first generated point is
  \<open>(t = 0, y = 1)\<close>; the generated values are non-increasing along the sequence; and every
  generated point has \<open>y = exp (- k * t)\<close>, so that a point whose time is within \<open>d\<close> of
  \<open>ln 10 / k\<close> has a value between \<open>exp (- k * d) / 10\<close> and \<open>exp (k * d) / 10\<close>. The value is
  as close to 0.1 as the sampled time is to \<open>ln 10 / k\<close>, and no sampled time need be near it.
\<close>

theorem useCurve_exp_noiseless:
  assumes k: "0 < k" and tMax: "0 < tMax"
  shows "(\<exists>ps. useCurve Exp k tMax 0 rnd = \<lparr>pt_t = 0, pt_y = 1, pt_yLo = 9 / 10, pt_yHi = 1\<rparr> # ps)
       \<and> sorted_wrt (\<lambda>p q. pt_y q \<le> pt_y p) (useCurve Exp k tMax 0 rnd)
       \<and> (\<forall>p \<in> set (useCurve Exp k tMax 0 rnd).
             pt_y p = exp (- k * pt_t p) \<and>
             (\<forall>d. \<bar>pt_t p - ln 10 / k\<bar> \<le> d \<longrightarrow>
                  exp (- k * d) / 10 \<le> pt_y p \<and> pt_y p \<le> exp (k * d) / 10))"
proof (intro conjI)
  have "0 \<le> tMax" using tMax by simp
  then have "useCurve Exp k tMax 0 rnd =
      mk_point 0 (ideal_of Exp k tMax 0) 0 # curve_loop Exp k tMax 0 rnd (0 + step_of tMax) 0"
    unfolding useCurve_def by (rule curve_loop_head)
  moreover have "mk_point 0 (ideal_of Exp k tMax 0) 0 = \<lparr>pt_t = 0, pt_y = 1, pt_yLo = 9 / 10, pt_yHi = 1\<rparr>"
    by (simp add: mk_point_def ideal_of_def)
  ultimately show "\<exists>ps. useCurve Exp k tMax 0 rnd = \<lparr>pt_t = 0, pt_y = 1, pt_yLo = 9 / 10, pt_yHi = 1\<rparr> # ps"
    by simp
next
  have "0 \<le> k" using k by simp
  then show "sorted_wrt (\<lambda>p q. pt_y q \<le> pt_y p) (useCurve Exp k tMax 0 rnd)"
    unfolding useCurve_def by (intro curve_loop_sorted ideal_exp_antitone)
next
  show "\<forall>p \<in> set (useCurve Exp k tMax 0 rnd).
          pt_y p = exp (- k * pt_t p) \<and>
          (\<forall>d. \<bar>pt_t p - ln 10 / k\<bar> \<le> d \<longrightarrow>
               exp (- k * d) / 10 \<le> pt_y p \<and> pt_y p \<le> exp (k * d) / 10)"
  proof (intro ballI conjI allI impI)
    fix p assume p: "p \<in> set (useCurve Exp k tMax 0 rnd)"
    then have v: "pt_y p = exp (- k * pt_t p)"
      using exp_sample_value [of k p tMax rnd 0] k by (simp add: useCurve_def)
    show "pt_y p = exp (- k * pt_t p)" by (rule v)
    fix d assume d: "\<bar>pt_t p - ln 10 / k\<bar> \<le> d"
    show "exp (- k * d) / 10 \<le> pt_y p" "pt_y p \<le> exp (k * d) / 10"
      using exp_near_t90 [OF k d] v by simp_all
  qed
qed

theorem useCurve_exp_noiseless_witness:
  "(0::real) < 1
   \<and> (\<exists>ps. useCurve Exp 1 1 0 (\<lambda>i. 0) = \<lparr>pt_t = 0, pt_y = 1, pt_yLo = 9 / 10, pt_yHi = 1\<rparr> # ps)
   \<and> sorted_wrt (\<lambda>p q. pt_y q \<le> pt_y p) (useCurve Exp 1 1 0 (\<lambda>i. 0))
   \<and> mk_point 1 (exp (- 1)) 0 \<in> set (useCurve Exp 1 1 0 (\<lambda>i. 0))
   \<and> \<bar>pt_t (mk_point 1 (exp (- 1)) 0) - ln 10 / 1\<bar> \<le> 9
   \<and> pt_y (mk_point 1 (exp (- 1)) 0) = exp (- 1 * pt_t (mk_point 1 (exp (- 1)) 0))
   \<and> exp (- 1 * 9) / 10 \<le> pt_y (mk_point 1 (exp (- 1)) 0)
   \<and> pt_y (mk_point 1 (exp (- 1)) 0) \<le> exp (1 * 9) / 10"
proof -
  have mem: "mk_point 1 (exp (- 1)) 0 \<in> set (useCurve Exp 1 1 0 (\<lambda>i. 0))"
    by (simp add: useCurve_exp_1_1)
  have t: "pt_t (mk_point 1 (exp (- 1)) 0) = 1"
    by (simp add: mk_point_def Let_def)
  have d: "\<bar>pt_t (mk_point 1 (exp (- 1)) 0) - ln 10 / 1\<bar> \<le> 9"
    using ln10_bounds_coarse by (simp add: t)
  show ?thesis
    using useCurve_exp_noiseless [of 1 1 "\<lambda>i. 0"] mem d by auto
qed

text \<open>
  With \<open>k = 1\<close> and \<open>tMax = 1\<close> the sampled times are 0 and 1. Both lie below
  \<open>ln 10\<close>, the nearest is 1, and the value there is \<open>exp (- 1)\<close>, which is at least 1/3:
  the value at the sampled time nearest \<open>ln 10 / k\<close> is not within 0.1 of 0.1.
\<close>

theorem useCurve_exp_nearest_counterexample:
  "useCurve Exp 1 1 0 (\<lambda>i. 0) = [mk_point 0 1 0, mk_point 1 (exp (- 1)) 0]
   \<and> pt_t (mk_point 0 1 0) = 0 \<and> pt_y (mk_point 0 1 0) = 1
   \<and> pt_t (mk_point 1 (exp (- 1)) 0) = 1 \<and> 1 / 3 \<le> pt_y (mk_point 1 (exp (- 1)) 0)
   \<and> \<not> (\<forall>p \<in> set (useCurve Exp 1 1 0 (\<lambda>i. 0)).
           (\<forall>q \<in> set (useCurve Exp 1 1 0 (\<lambda>i. 0)).
               \<bar>pt_t p - ln 10 / 1\<bar> \<le> \<bar>pt_t q - ln 10 / 1\<bar>)
           \<longrightarrow> \<bar>pt_y p - 1 / 10\<bar> \<le> 1 / 10)"
proof -
  have y1: "pt_y (mk_point 1 (exp (- 1)) 0) = exp (- 1)"
    by (simp add: mk_point_def Let_def)
  have ln10: "1 < ln (10::real)"
    using ln10_bounds_coarse by simp
  show ?thesis
    using exp_minus_1_ge y1 ln10
    by (simp add: useCurve_exp_1_1) (simp add: mk_point_def Let_def)
qed

subsection \<open>The scenario \<open>k = 0.03\<close>\<close>

text \<open>
  Bounds on \<open>exp\<close> at a rational point from the partial sums of its series, with the
  remainder in Lagrange's form.
\<close>


lemma exp_lower_partial:
  fixes x :: real
  assumes "0 \<le> x"
  shows "(\<Sum>m<n. x ^ m / fact m) \<le> exp x"
proof -
  obtain t where "exp x = (\<Sum>m<n. x ^ m / fact m) + exp t / fact n * x ^ n"
    using Maclaurin_exp_le [of x n] by blast
  moreover have "0 \<le> exp t / fact n * x ^ n"
    using assms by simp
  ultimately show ?thesis by linarith
qed

lemma exp_upper_partial:
  fixes x :: real
  assumes x: "0 \<le> x" and r: "x ^ n / fact n < 1"
  shows "exp x \<le> (\<Sum>m<n. x ^ m / fact m) / (1 - x ^ n / fact n)"
proof -
  obtain t where t: "\<bar>t\<bar> \<le> \<bar>x\<bar>"
    and e: "exp x = (\<Sum>m<n. x ^ m / fact m) + exp t / fact n * x ^ n"
    using Maclaurin_exp_le [of x n] by blast
  have "t \<le> x" using t x by linarith
  then have "exp t \<le> exp x" by simp
  moreover have "0 \<le> x ^ n / fact n" using x by simp
  ultimately have "exp t * (x ^ n / fact n) \<le> exp x * (x ^ n / fact n)"
    by (rule mult_right_mono)
  then have "exp x \<le> (\<Sum>m<n. x ^ m / fact m) + exp x * (x ^ n / fact n)"
    using e by simp
  then have "exp x * (1 - x ^ n / fact n) \<le> (\<Sum>m<n. x ^ m / fact m)"
    by (simp add: algebra_simps)
  moreover have "0 < 1 - x ^ n / fact n" using r by simp
  ultimately show ?thesis
    by (simp add: pos_le_divide_eq)
qed

lemma exp_23_lt_10: "exp (23 / 10 :: real) < 10"
proof -
  have "exp (23 / 10 :: real) \<le> (\<Sum>m<10. (23 / 10) ^ m / fact m) / (1 - (23 / 10) ^ 10 / fact 10)"
    by (rule exp_upper_partial) (simp_all add: fact_numeral power_divide)
  also have "\<dots> < 10"
    by (simp add: eval_nat_numeral fact_numeral)
  finally show ?thesis .
qed

lemma exp_93_40_ge_10: "10 \<le> exp (93 / 40 :: real)"
proof -
  have "(10::real) \<le> (\<Sum>m<7. (93 / 40) ^ m / fact m)"
    by (simp add: eval_nat_numeral fact_numeral)
  also have "\<dots> \<le> exp (93 / 40 :: real)"
    by (rule exp_lower_partial) simp
  finally show ?thesis .
qed

lemma exp_231_bounds: "1000 / 101 < exp (231 / 100 :: real) \<and> exp (231 / 100 :: real) < 1000 / 99"
proof
  have "(1000 / 101 :: real) < (\<Sum>m<10. (231 / 100) ^ m / fact m)"
    by (simp add: eval_nat_numeral fact_numeral)
  also have "\<dots> \<le> exp (231 / 100 :: real)"
    by (rule exp_lower_partial) simp
  finally show "1000 / 101 < exp (231 / 100 :: real)" .
  have "exp (231 / 100 :: real) \<le> (\<Sum>m<10. (231 / 100) ^ m / fact m) / (1 - (231 / 100) ^ 10 / fact 10)"
    by (rule exp_upper_partial) (simp_all add: fact_numeral power_divide)
  also have "\<dots> < 1000 / 99"
    by (simp add: eval_nat_numeral fact_numeral)
  finally show "exp (231 / 100 :: real) < 1000 / 99" .
qed

lemma ln10_bounds: "23 / 10 < ln (10::real) \<and> ln (10::real) \<le> 93 / 40"
proof
  have "exp (23 / 10 :: real) < exp (ln 10)"
    using exp_23_lt_10 by simp
  then show "23 / 10 < ln (10::real)"
    by (simp only: exp_less_cancel_iff)
  have "exp (ln 10) \<le> exp (93 / 40 :: real)"
    using exp_93_40_ge_10 by simp
  then show "ln (10::real) \<le> 93 / 40"
    by (simp only: exp_le_cancel_iff)
qed

lemma tMax_of_3_100: "tMax_of (3 / 100) = 93"
proof -
  have e: "t90 (3 / 100) * (12 / 10) = 40 * ln 10"
    by (simp add: t90_def)
  have "\<lceil>40 * ln (10::real)\<rceil> = 93"
    using ln10_bounds by (intro ceiling_unique) simp_all
  then show ?thesis
    unfolding tMax_of_def e by simp
qed

lemma curve_loop_nth:
  "t + real n * step_of tMax \<le> tMax \<Longrightarrow>
   n < length (curve_loop m k tMax 0 rnd t c) \<and>
   curve_loop m k tMax 0 rnd t c ! n =
     mk_point (t + real n * step_of tMax) (ideal_of m k tMax (t + real n * step_of tMax)) 0"
proof (induction n arbitrary: t)
  case 0
  then have "t \<le> tMax" by simp
  then show ?case by (simp add: curve_loop_head)
next
  case (Suc n)
  have s: "1 \<le> step_of tMax" by (rule step_of_ge_1)
  have "0 \<le> real (Suc n) * step_of tMax" using s by simp
  then have le: "t \<le> tMax" using Suc.prems by linarith
  have "(t + step_of tMax) + real n * step_of tMax \<le> tMax"
    using Suc.prems by (simp add: algebra_simps)
  from Suc.IH [OF this] show ?case
    by (simp add: curve_loop_head [OF le] algebra_simps)
qed

lemma exp_minus_231_near: "\<bar>exp (- (3 / 100) * 77 :: real) - 1 / 10\<bar> < 1 / 1000"
proof -
  define E :: real where "E = exp (231 / 100)"
  have e: "exp (- (3 / 100) * 77 :: real) = 1 / E"
    by (simp add: exp_minus' E_def)
  have b: "1000 / 101 < E" "E < 1000 / 99"
    using exp_231_bounds by (simp_all add: E_def)
  have p: "0 < E" by (simp add: E_def)
  have "1 / E < 1 / (1000 / 101)"
    using b(1) by (intro divide_strict_left_mono) (simp_all add: p)
  then have u: "1 / E < 101 / 1000" by simp
  have "1 / (1000 / 99) < 1 / E"
    using b(2) p by (intro divide_strict_left_mono) simp_all
  then have l: "99 / 1000 < 1 / E" by simp
  show ?thesis
    unfolding e using u l by (simp only: abs_less_iff) linarith
qed

text \<open>
  Claim C2. For the exponential model with \<open>k = 0.03\<close> and noise 0 the derived horizon
  \<open>ceil (1.2 * ln 10 / 0.03)\<close> is 93 (the product under the ceiling is about 92.1); the
  first generated point is \<open>(t = 0, y = 1)\<close>; 77 is within 1 of \<open>ln 10 / k\<close>; and the
  generated point at \<open>t = 77\<close>, the one at index 77, has \<open>y = exp (- 0.03 * 77)\<close>, within
  0.001 of 0.1.
\<close>


theorem useCurve_scenario:
  "tMax_of (3 / 100) = 93
   \<and> \<bar>77 - ln 10 / (3 / 100)\<bar> < (1::real)
   \<and> (\<exists>ps. useCurve Exp (3 / 100) (tMax_of (3 / 100)) 0 rnd =
              \<lparr>pt_t = 0, pt_y = 1, pt_yLo = 9 / 10, pt_yHi = 1\<rparr> # ps)
   \<and> 77 < length (useCurve Exp (3 / 100) (tMax_of (3 / 100)) 0 rnd)
   \<and> pt_t (useCurve Exp (3 / 100) (tMax_of (3 / 100)) 0 rnd ! 77) = 77
   \<and> pt_y (useCurve Exp (3 / 100) (tMax_of (3 / 100)) 0 rnd ! 77) = exp (- (3 / 100) * 77)
   \<and> \<bar>pt_y (useCurve Exp (3 / 100) (tMax_of (3 / 100)) 0 rnd ! 77) - 1 / 10\<bar> < 1 / 1000"
proof -
  have st: "step_of 93 = 1" by (simp add: step_of_def)
  have near: "\<bar>77 - ln 10 / (3 / 100)\<bar> < (1::real)"
    using ln10_bounds by (simp add: abs_less_iff)
  have first: "useCurve Exp (3 / 100) 93 0 rnd =
      mk_point 0 (ideal_of Exp (3 / 100) 93 0) 0 # curve_loop Exp (3 / 100) 93 0 rnd (0 + step_of 93) 0"
    unfolding useCurve_def by (rule curve_loop_head) simp
  have p0: "mk_point 0 (ideal_of Exp (3 / 100) 93 0) 0 = \<lparr>pt_t = 0, pt_y = 1, pt_yLo = 9 / 10, pt_yHi = 1\<rparr>"
    by (simp add: mk_point_def ideal_of_def)
  have "0 + real 77 * step_of 93 \<le> 93" by (simp add: st)
  from curve_loop_nth [OF this, of Exp "3 / 100" rnd 0]
  have n: "77 < length (useCurve Exp (3 / 100) 93 0 rnd)"
    and v: "useCurve Exp (3 / 100) 93 0 rnd ! 77 = mk_point 77 (ideal_of Exp (3 / 100) 93 77) 0"
    by (simp_all add: useCurve_def st)
  have i: "ideal_of Exp (3 / 100) 93 77 = exp (- (3 / 100) * 77)"
    by (simp add: ideal_of_def)
  have r: "0 \<le> exp (- (3 / 100) * 77 :: real)" "exp (- (3 / 100) * 77 :: real) \<le> 1"
    by simp_all
  have y: "pt_y (mk_point 77 (exp (- (3 / 100) * 77)) 0) = exp (- (3 / 100) * 77)"
    using r by (simp add: mk_point_def Let_def)
  have t: "pt_t (mk_point 77 (exp (- (3 / 100) * 77)) 0) = 77"
    by (simp add: mk_point_def Let_def)
  have y77: "pt_y (useCurve Exp (3 / 100) 93 0 rnd ! 77) = exp (- (3 / 100) * 77)"
    by (simp only: v i y)
  have t77: "pt_t (useCurve Exp (3 / 100) 93 0 rnd ! 77) = 77"
    by (simp only: v i t)
  have f: "\<exists>ps. useCurve Exp (3 / 100) 93 0 rnd = \<lparr>pt_t = 0, pt_y = 1, pt_yLo = 9 / 10, pt_yHi = 1\<rparr> # ps"
    using first p0 by simp
  show ?thesis
    unfolding tMax_of_3_100 y77 t77
    using near n f exp_minus_231_near by (intro conjI) (rule refl | assumption)+
qed

subsection \<open>The logistic model without noise\<close>


lemma tMax_of_nonneg: "0 \<le> tMax_of k"
proof -
  have "0 < max (1 / 1000000) k" by simp
  then have "0 < t90 k" unfolding t90_def by (intro divide_pos_pos) simp_all
  then have "0 \<le> t90 k * (12 / 10)" by simp
  also have "\<dots> \<le> of_int \<lceil>t90 k * (12 / 10)\<rceil>" by (rule le_of_int_ceiling)
  finally show ?thesis by (simp only: tMax_of_def)
qed

lemma steepness_horizon: "12 * ln 10 \<le> steepness k * tMax_of k"
proof -
  define mu :: real where "mu = max (1 / 1000000) k"
  have mu: "0 < mu" by (simp add: mu_def)
  have s: "10 * mu \<le> steepness k"
    by (simp add: mu_def steepness_def max_def)
  have "t90 k * (12 / 10) \<le> of_int \<lceil>t90 k * (12 / 10)\<rceil>" by (rule le_of_int_ceiling)
  then have t: "ln 10 / mu * (12 / 10) \<le> tMax_of k"
    by (simp only: tMax_of_def t90_def mu_def)
  have t0: "0 \<le> ln 10 / mu * (12 / 10)" using mu by simp
  have "12 * ln 10 = (10 * mu) * (ln 10 / mu * (12 / 10))"
    using mu by simp
  also have "\<dots> \<le> steepness k * tMax_of k"
    using s t t0 mu by (intro mult_mono) simp_all
  finally show ?thesis .
qed

lemma logistic_alt:
  "ideal_of Logistic k tMax t = 1 / (1 + exp (steepness k * (t - tMax * (25 / 100))))"
proof -
  define z where "z = steepness k * (t - tMax * (25 / 100))"
  have p: "0 < exp z" by simp
  have q: "1 + exp z \<noteq> 0" using p by linarith
  have "1 + exp (- z) = (1 + exp z) / exp z"
    using p by (simp add: exp_minus field_simps)
  then have "1 / (1 + exp (- z)) = exp z / (1 + exp z)"
    by simp
  also have "1 - exp z / (1 + exp z) = 1 / (1 + exp z)"
    using q by (simp add: field_simps)
  finally have "1 - 1 / (1 + exp (- z)) = 1 / (1 + exp z)" .
  then show ?thesis
    by (simp add: ideal_of_def Let_def z_def)
qed

lemma logistic_range: "0 < ideal_of Logistic k tMax t \<and> ideal_of Logistic k tMax t < 1"
proof -
  have "0 < exp (steepness k * (t - tMax * (25 / 100)))" by simp
  then show ?thesis
    unfolding logistic_alt by (simp add: add_pos_pos)
qed

lemma exp_3ln10: "exp (3 * ln (10::real)) = 1000"
proof -
  have "exp (3 * ln (10::real)) = exp (ln 10) ^ 3"
    using exp_of_nat_mult [of 3 "ln (10::real)"] by simp
  then show ?thesis by simp
qed

lemma logistic_start: "1000 / 1001 \<le> ideal_of Logistic k (tMax_of k) 0"
proof -
  define z where "z = steepness k * (0 - tMax_of k * (25 / 100))"
  have "z = - (steepness k * tMax_of k) / 4" by (simp add: z_def)
  then have "z \<le> - (3 * ln 10)" using steepness_horizon [of k] by simp
  then have "exp z \<le> exp (- (3 * ln 10))" by simp
  then have e: "exp z \<le> 1 / 1000" by (simp add: exp_minus exp_3ln10)
  have "1 / (1 + 1 / 1000) \<le> 1 / (1 + exp z)"
    using e by (intro divide_left_mono) (simp_all add: add_pos_pos)
  then show ?thesis
    unfolding logistic_alt z_def by simp
qed

lemma logistic_late:
  assumes "tMax_of k / 2 \<le> t"
  shows "ideal_of Logistic k (tMax_of k) t \<le> 1 / 1000"
proof -
  define z where "z = steepness k * (t - tMax_of k * (25 / 100))"
  have s: "0 < steepness k" by (simp add: steepness_def)
  have "tMax_of k / 4 \<le> t - tMax_of k * (25 / 100)" using assms by simp
  then have "steepness k * (tMax_of k / 4) \<le> z"
    unfolding z_def using s by (simp only: mult_le_cancel_left_pos)
  then have "3 * ln 10 \<le> z" using steepness_horizon [of k] by simp
  then have "exp (3 * ln 10) \<le> exp z" by simp
  then have e: "1000 \<le> exp z" by (simp only: exp_3ln10)
  have "1 / (1 + exp z) \<le> 1 / (1 + 1000)"
    using e by (intro divide_left_mono) (simp_all add: add_pos_pos)
  then show ?thesis
    unfolding logistic_alt z_def by simp
qed

lemma logistic_limit: "((\<lambda>t. ideal_of Logistic k tMax t) \<longlongrightarrow> 0) at_top"
proof -
  have s: "0 < steepness k" by (simp add: steepness_def)
  have "LIM t at_top. steepness k * t :> at_top"
    using s by (intro filterlim_tendsto_pos_mult_at_top [OF tendsto_const]) (simp_all add: filterlim_ident)
  then have "LIM t at_top. - (steepness k * (tMax * (25 / 100))) + steepness k * t :> at_top"
    by (intro filterlim_tendsto_add_at_top [OF tendsto_const])
  moreover have "- (steepness k * (tMax * (25 / 100))) + steepness k * t = steepness k * (t - tMax * (25 / 100))" for t
    by (simp add: algebra_simps)
  ultimately have "LIM t at_top. steepness k * (t - tMax * (25 / 100)) :> at_top"
    by (simp only:)
  then have "LIM t at_top. exp (steepness k * (t - tMax * (25 / 100))) :> at_top"
    by (rule filterlim_compose [OF exp_at_top])
  then have "LIM t at_top. 1 + exp (steepness k * (t - tMax * (25 / 100))) :> at_top"
    by (intro filterlim_tendsto_add_at_top [OF tendsto_const])
  then have "((\<lambda>t. 1 / (1 + exp (steepness k * (t - tMax * (25 / 100))))) \<longlongrightarrow> 0) at_top"
    by (intro real_tendsto_divide_at_top [OF tendsto_const])
  then show ?thesis
    by (simp only: logistic_alt)
qed

lemma logistic_sample_value:
  assumes "p \<in> set (curve_loop Logistic k tMax 0 rnd t c)"
  shows "pt_y p = ideal_of Logistic k tMax (pt_t p)"
proof -
  from curve_loop_noiseless [of Logistic k tMax rnd t c] assms
  have "pt_y p = max 0 (min 1 (ideal_of Logistic k tMax (pt_t p)))"
    by auto
  then show ?thesis
    using logistic_range [of k tMax "pt_t p"] by simp
qed

text \<open>
  Claim C5. For the logistic model with noise amplitude 0, every rate \<open>k\<close> (in particular
  every positive one) and the derived horizon \<open>tMax\<close>, with \<open>x0 = 0.25 * tMax\<close> and
  \<open>s = max 1e-3 (10 * k)\<close>: the first generated point is at \<open>t = 0\<close> with a value of at
  least 1000/1001; the closed form tends to 0 as \<open>t\<close> grows, and every generated point in the
  second half of the horizon has a value of at most 0.001; the generated values are the
  closed form at the sampled times and are non-increasing along the sequence.
\<close>


theorem useCurve_logistic_noiseless:
  "(\<exists>p ps. useCurve Logistic k (tMax_of k) 0 rnd = p # ps
            \<and> pt_t p = 0 \<and> 1000 / 1001 \<le> pt_y p \<and> pt_y p \<le> 1)
       \<and> ((\<lambda>t. ideal_of Logistic k (tMax_of k) t) \<longlongrightarrow> 0) at_top
       \<and> (\<forall>p \<in> set (useCurve Logistic k (tMax_of k) 0 rnd).
             pt_y p = ideal_of Logistic k (tMax_of k) (pt_t p) \<and>
             (tMax_of k / 2 \<le> pt_t p \<longrightarrow> pt_y p \<le> 1 / 1000))
       \<and> sorted_wrt (\<lambda>p q. pt_y q \<le> pt_y p) (useCurve Logistic k (tMax_of k) 0 rnd)"
proof (intro conjI)
  let ?i = "ideal_of Logistic k (tMax_of k) 0"
  have u: "useCurve Logistic k (tMax_of k) 0 rnd =
      mk_point 0 ?i 0 # curve_loop Logistic k (tMax_of k) 0 rnd (0 + step_of (tMax_of k)) 0"
    unfolding useCurve_def using tMax_of_nonneg [of k] by (rule curve_loop_head)
  have r: "0 < ?i" "?i < 1" "1000 / 1001 \<le> ?i"
    using logistic_range [of k "tMax_of k" 0] logistic_start [of k] by simp_all
  have "pt_t (mk_point 0 ?i 0) = 0" "pt_y (mk_point 0 ?i 0) = ?i"
    using r by (simp_all add: mk_point_def Let_def)
  then show "\<exists>p ps. useCurve Logistic k (tMax_of k) 0 rnd = p # ps
            \<and> pt_t p = 0 \<and> 1000 / 1001 \<le> pt_y p \<and> pt_y p \<le> 1"
    using u r by auto
next
  show "((\<lambda>t. ideal_of Logistic k (tMax_of k) t) \<longlongrightarrow> 0) at_top"
    by (rule logistic_limit)
next
  show "\<forall>p \<in> set (useCurve Logistic k (tMax_of k) 0 rnd).
             pt_y p = ideal_of Logistic k (tMax_of k) (pt_t p) \<and>
             (tMax_of k / 2 \<le> pt_t p \<longrightarrow> pt_y p \<le> 1 / 1000)"
  proof (intro ballI conjI impI)
    fix p assume "p \<in> set (useCurve Logistic k (tMax_of k) 0 rnd)"
    then show v: "pt_y p = ideal_of Logistic k (tMax_of k) (pt_t p)"
      unfolding useCurve_def by (rule logistic_sample_value)
    assume "tMax_of k / 2 \<le> pt_t p"
    then show "pt_y p \<le> 1 / 1000"
      unfolding v by (rule logistic_late)
  qed
next
  show "sorted_wrt (\<lambda>p q. pt_y q \<le> pt_y p) (useCurve Logistic k (tMax_of k) 0 rnd)"
    unfolding useCurve_def by (intro curve_loop_sorted ideal_logistic_antitone)
qed

theorem useCurve_logistic_noiseless_witness:
  "(0::real) < 3 / 100
   \<and> useCurve Logistic (3 / 100) (tMax_of (3 / 100)) 0 (\<lambda>i. 0) ! 77
        \<in> set (useCurve Logistic (3 / 100) (tMax_of (3 / 100)) 0 (\<lambda>i. 0))
   \<and> pt_t (useCurve Logistic (3 / 100) (tMax_of (3 / 100)) 0 (\<lambda>i. 0) ! 77) = 77
   \<and> tMax_of (3 / 100) / 2 \<le> 77
   \<and> pt_y (useCurve Logistic (3 / 100) (tMax_of (3 / 100)) 0 (\<lambda>i. 0) ! 77) \<le> 1 / 1000
   \<and> (\<exists>p ps. useCurve Logistic (3 / 100) (tMax_of (3 / 100)) 0 (\<lambda>i. 0) = p # ps
            \<and> pt_t p = 0 \<and> 1000 / 1001 \<le> pt_y p \<and> pt_y p \<le> 1)
   \<and> sorted_wrt (\<lambda>p q. pt_y q \<le> pt_y p) (useCurve Logistic (3 / 100) (tMax_of (3 / 100)) 0 (\<lambda>i. 0))"
proof -
  have st: "step_of 93 = 1" by (simp add: step_of_def)
  have "0 + real 77 * step_of 93 \<le> 93" by (simp add: st)
  from curve_loop_nth [OF this, of Logistic "3 / 100" "\<lambda>i. 0" 0]
  have n: "77 < length (useCurve Logistic (3 / 100) 93 0 (\<lambda>i. 0))"
    and t: "pt_t (useCurve Logistic (3 / 100) 93 0 (\<lambda>i. 0) ! 77) = 77"
    by (simp_all add: useCurve_def st mk_point_def Let_def)
  have mem: "useCurve Logistic (3 / 100) 93 0 (\<lambda>i. 0) ! 77
        \<in> set (useCurve Logistic (3 / 100) 93 0 (\<lambda>i. 0))"
    using n by (rule nth_mem)
  have k: "(0::real) < 3 / 100" by simp
  note th = useCurve_logistic_noiseless [of "3 / 100" "\<lambda>i. 0", unfolded tMax_of_3_100]
  have half: "(93::real) / 2 \<le> 77" by simp
  from th have "\<forall>p \<in> set (useCurve Logistic (3 / 100) 93 0 (\<lambda>i. 0)).
             pt_y p = ideal_of Logistic (3 / 100) 93 (pt_t p) \<and>
             (93 / 2 \<le> pt_t p \<longrightarrow> pt_y p \<le> 1 / 1000)"
    by (elim conjE)
  with mem have "93 / 2 \<le> pt_t (useCurve Logistic (3 / 100) 93 0 (\<lambda>i. 0) ! 77) \<longrightarrow>
      pt_y (useCurve Logistic (3 / 100) 93 0 (\<lambda>i. 0) ! 77) \<le> 1 / 1000"
    by blast
  then have y: "pt_y (useCurve Logistic (3 / 100) 93 0 (\<lambda>i. 0) ! 77) \<le> 1 / 1000"
    unfolding t using half by blast
  show ?thesis
    unfolding tMax_of_3_100
    using k mem t half y th by (intro conjI) (assumption | elim conjE)+
qed

subsection \<open>Clamping and the band, with overflow and NaN\<close>


lemma threshold_large: "10 ^ 308 < overflow_threshold"
  by (simp add: overflow_threshold_def)

lemma threshold_gt_2: "2 < overflow_threshold"
  using threshold_large by simp

lemma ovf_Fin: "\<bar>r\<bar> < overflow_threshold \<Longrightarrow> ovf r = Fin r"
  by (simp add: ovf_def abs_less_iff)

lemma ovf_small: "\<bar>r\<bar> \<le> 2 \<Longrightarrow> ovf r = Fin r"
  using threshold_gt_2 by (intro ovf_Fin) linarith

lemma ovf_not_NaN: "ovf r \<noteq> NaN"
  by (simp add: ovf_def)

lemma jneg_not_NaN: "a \<noteq> NaN \<Longrightarrow> jneg a \<noteq> NaN"
  by (cases a) simp_all

lemma jsub_Fin_not_NaN: "b \<noteq> NaN \<Longrightarrow> jsub (Fin a) b \<noteq> NaN"
  by (cases b) (simp_all add: jsub_def ovf_not_NaN)

lemma jmul_Fin_not_NaN: "a \<noteq> 0 \<Longrightarrow> b \<noteq> NaN \<Longrightarrow> jmul (Fin a) b \<noteq> NaN"
  by (cases b) (simp_all add: ovf_not_NaN)

lemma jexp_range: "z \<noteq> NaN \<Longrightarrow> jexp z = PInf \<or> (\<exists>v. jexp z = Fin v \<and> 0 \<le> v)"
proof (cases z)
  case (Fin r)
  have "- overflow_threshold < exp r"
    using threshold_gt_2 exp_gt_zero [of r] by linarith
  then show ?thesis
    using Fin by (simp add: ovf_def)
qed simp_all

lemma logistic_tail:
  assumes "e = PInf \<or> (\<exists>v. e = Fin v \<and> 0 \<le> v)"
  shows "\<exists>w. jsub (Fin 1) (jdiv (Fin 1) (jadd (Fin 1) e)) = Fin w \<and> 0 \<le> w \<and> w \<le> 1"
proof -
  have den: "jadd (Fin 1) e = PInf \<or> (\<exists>d. jadd (Fin 1) e = Fin d \<and> 1 \<le> d)"
  proof -
    from assms show ?thesis
    proof
      assume "e = PInf" then show ?thesis by simp
    next
      assume "\<exists>v. e = Fin v \<and> 0 \<le> v"
      then obtain v where v: "e = Fin v" "0 \<le> v" by auto
      have "- overflow_threshold < 1 + v" using v(2) threshold_gt_2 by linarith
      then show ?thesis using v by (simp add: ovf_def)
    qed
  qed
  have quo: "\<exists>q. jdiv (Fin 1) (jadd (Fin 1) e) = Fin q \<and> 0 \<le> q \<and> q \<le> 1"
  proof -
    from den show ?thesis
    proof
      assume "jadd (Fin 1) e = PInf" then show ?thesis by simp
    next
      assume "\<exists>d. jadd (Fin 1) e = Fin d \<and> 1 \<le> d"
      then obtain d where d: "jadd (Fin 1) e = Fin d" "1 \<le> d" by auto
      have q: "0 \<le> 1 / d" "1 / d \<le> 1" using d(2) by simp_all
      then have "\<bar>1 / d\<bar> < overflow_threshold" using threshold_gt_2 by linarith
      then have "ovf (1 / d) = Fin (1 / d)" by (rule ovf_Fin)
      then show ?thesis using d q by simp
    qed
  qed
  then obtain q where q: "jdiv (Fin 1) (jadd (Fin 1) e) = Fin q" "0 \<le> q" "q \<le> 1" by auto
  have "\<bar>1 - q\<bar> < overflow_threshold" using q(2,3) threshold_gt_2 by linarith
  then have "ovf (1 + - q) = Fin (1 - q)" using ovf_Fin [of "1 - q"] by simp
  then show ?thesis using q by (simp add: jsub_def)
qed

lemma js_ideal_range:
  assumes k: "0 \<le> k" "k \<le> 10 ^ 307" and t: "0 \<le> t"
  shows "\<exists>v. js_ideal m k tMax t = Fin v \<and> 0 \<le> v \<and> v \<le> 1"
proof (cases m)
  case Exp
  have np: "- k * t \<le> 0" using k t by (simp add: mult_nonneg_nonneg)
  show ?thesis
  proof (cases "- k * t \<le> - overflow_threshold")
    case True
    have "\<not> overflow_threshold \<le> - k * t" using np threshold_gt_2 by linarith
    then have "jmul (jneg (Fin k)) (Fin t) = NInf" using True by (simp add: ovf_def)
    then show ?thesis using Exp by (simp add: js_ideal_def)
  next
    case False
    have "\<not> overflow_threshold \<le> - k * t" using np threshold_gt_2 by linarith
    then have m: "jmul (jneg (Fin k)) (Fin t) = Fin (- k * t)" using False by (simp add: ovf_def)
    have e: "0 < exp (- k * t)" "exp (- k * t) \<le> 1" using np by simp_all
    then have "\<bar>exp (- k * t)\<bar> < overflow_threshold" using threshold_gt_2 by linarith
    then have "ovf (exp (- k * t)) = Fin (exp (- k * t))" by (rule ovf_Fin)
    then show ?thesis using Exp m e by (simp add: js_ideal_def)
  qed
next
  case Logistic
  have "\<bar>10 * k\<bar> < overflow_threshold" using k threshold_large by simp
  then have o: "ovf (10 * k) = Fin (10 * k)" by (rule ovf_Fin)
  have sp: "- steepness k \<noteq> 0" by (simp add: steepness_def max_def)
  have "jmul (Fin tMax) (Fin (25 / 100)) \<noteq> NaN" by (simp add: ovf_not_NaN)
  then have "jsub (Fin t) (jmul (Fin tMax) (Fin (25 / 100))) \<noteq> NaN" by (rule jsub_Fin_not_NaN)
  then have "jmul (Fin (- steepness k)) (jsub (Fin t) (jmul (Fin tMax) (Fin (25 / 100)))) \<noteq> NaN"
    using sp by (rule jmul_Fin_not_NaN [rotated])
  then have "jexp (jmul (Fin (- steepness k)) (jsub (Fin t) (jmul (Fin tMax) (Fin (25 / 100))))) = PInf \<or>
     (\<exists>v. jexp (jmul (Fin (- steepness k)) (jsub (Fin t) (jmul (Fin tMax) (Fin (25 / 100))))) = Fin v \<and> 0 \<le> v)"
    by (rule jexp_range)
  then have "\<exists>w. jsub (Fin 1) (jdiv (Fin 1) (jadd (Fin 1)
       (jexp (jmul (Fin (- steepness k)) (jsub (Fin t) (jmul (Fin tMax) (Fin (25 / 100)))))))) = Fin w
       \<and> 0 \<le> w \<and> w \<le> 1"
    by (rule logistic_tail)
  then show ?thesis
    using Logistic by (simp add: js_ideal_def Let_def o steepness_def)
qed

lemma js_eps_Fin:
  assumes "\<bar>noise\<bar> < overflow_threshold" "0 \<le> r" "r < 1" "0 \<le> v" "v \<le> 1"
  shows "\<exists>e. js_eps noise r (Fin v) = Fin e \<and> \<bar>e\<bar> \<le> \<bar>noise\<bar>"
proof (cases "noise = 0")
  case True
  then show ?thesis by (simp add: js_eps_def)
next
  case False
  have a: "\<bar>r - 5 / 10\<bar> \<le> 1 / 2" using assms(2,3) by (intro abs_leI) simp_all
  then have "\<bar>r - 5 / 10\<bar> < overflow_threshold" using threshold_gt_2 by linarith
  then have c1: "jsub (Fin r) (Fin (5 / 10)) = Fin (r - 5 / 10)"
    using ovf_Fin [of "r - 5 / 10"] by (simp add: jsub_def)
  have b: "\<bar>(r - 5 / 10) * 2\<bar> \<le> 1" using assms(2,3) by (intro abs_leI) simp_all
  then have "\<bar>(r - 5 / 10) * 2\<bar> < overflow_threshold" using threshold_gt_2 by linarith
  then have c2: "jmul (Fin (r - 5 / 10)) (Fin 2) = Fin ((r - 5 / 10) * 2)"
    using ovf_Fin [of "(r - 5 / 10) * 2"] by simp
  have "\<bar>(r - 5 / 10) * 2 * noise\<bar> = \<bar>(r - 5 / 10) * 2\<bar> * \<bar>noise\<bar>" by (simp only: abs_mult)
  also have "\<dots> \<le> 1 * \<bar>noise\<bar>" using b by (intro mult_right_mono) simp_all
  finally have d: "\<bar>(r - 5 / 10) * 2 * noise\<bar> \<le> \<bar>noise\<bar>" by simp
  then have "\<bar>(r - 5 / 10) * 2 * noise\<bar> < overflow_threshold" using assms(1) by linarith
  then have c3: "jmul (Fin ((r - 5 / 10) * 2)) (Fin noise) = Fin ((r - 5 / 10) * 2 * noise)"
    using ovf_Fin [of "(r - 5 / 10) * 2 * noise"] by simp
  have "\<bar>(r - 5 / 10) * 2 * noise * v\<bar> = \<bar>(r - 5 / 10) * 2 * noise\<bar> * \<bar>v\<bar>" by (simp only: abs_mult)
  also have "\<dots> \<le> \<bar>noise\<bar> * 1" using d assms(4,5) by (intro mult_mono) simp_all
  finally have e: "\<bar>(r - 5 / 10) * 2 * noise * v\<bar> \<le> \<bar>noise\<bar>" by simp
  then have "\<bar>(r - 5 / 10) * 2 * noise * v\<bar> < overflow_threshold" using assms(1) by linarith
  then have c4: "jmul (Fin ((r - 5 / 10) * 2 * noise)) (Fin v) = Fin ((r - 5 / 10) * 2 * noise * v)"
    using ovf_Fin [of "(r - 5 / 10) * 2 * noise * v"] by simp
  have "js_eps noise r (Fin v) = Fin ((r - 5 / 10) * 2 * noise * v)"
    unfolding js_eps_def c1 c2 c3 c4 using False by simp
  then show ?thesis
    using e by blast
qed

lemma js_mk_point_range:
  assumes "0 \<le> v" "v \<le> 1"
  shows "\<exists>u. jp_y (js_mk_point t (Fin v) (Fin e)) = Fin u \<and> 0 \<le> u \<and> u \<le> 1
           \<and> jp_yLo (js_mk_point t (Fin v) (Fin e)) = Fin (9 / 10 * u)
           \<and> jp_yHi (js_mk_point t (Fin v) (Fin e)) = Fin (min 1 (11 / 10 * u))"
proof -
  have "\<exists>u. jmax (Fin 0) (jmin (Fin 1) (jadd (Fin v) (Fin e))) = Fin u \<and> 0 \<le> u \<and> u \<le> 1"
    by (simp add: ovf_def)
  then obtain u where u: "jmax (Fin 0) (jmin (Fin 1) (jadd (Fin v) (Fin e))) = Fin u" "0 \<le> u" "u \<le> 1"
    by auto
  have "\<bar>u * (9 / 10)\<bar> < overflow_threshold" "\<bar>u * (11 / 10)\<bar> < overflow_threshold"
    using u(2,3) threshold_gt_2 by (simp_all add: abs_mult)
  then have m: "ovf (u * (9 / 10)) = Fin (u * (9 / 10))"
    "ovf (u * (11 / 10)) = Fin (u * (11 / 10))"
    by (simp_all only: ovf_Fin)
  show ?thesis
    using u m by (simp add: js_mk_point_def Let_def)
qed

lemma js_curve_loop_step:
  "t \<le> tMax \<Longrightarrow>
   js_curve_loop m k tMax noise rnd t c =
     js_mk_point t (js_ideal m k tMax t) (js_eps noise (rnd c) (js_ideal m k tMax t)) #
     js_curve_loop m k tMax noise rnd (t + step_of tMax) (if noise \<noteq> 0 then Suc c else c)"
  by (subst js_curve_loop.simps) (simp add: Let_def)

lemma js_curve_loop_stop: "\<not> t \<le> tMax \<Longrightarrow> js_curve_loop m k tMax noise rnd t c = []"
  by (subst js_curve_loop.simps) simp

lemma js_curve_loop_points:
  "(\<And>t' c'. t \<le> t' \<Longrightarrow>
      P (js_mk_point t' (js_ideal m k tMax t') (js_eps noise (rnd c') (js_ideal m k tMax t')))) \<Longrightarrow>
   \<forall>p \<in> set (js_curve_loop m k tMax noise rnd t c). P p"
proof (induction m k tMax noise rnd t c rule: js_curve_loop.induct)
  case (1 m k tMax noise rnd t c)
  show ?case
  proof (cases "t \<le> tMax")
    case True
    have st: "t \<le> t + step_of tMax" using step_of_ge_1 [of tMax] by simp
    have hd: "P (js_mk_point t (js_ideal m k tMax t) (js_eps noise (rnd c) (js_ideal m k tMax t)))"
      by (rule "1.prems") simp
    have tl: "\<forall>p \<in> set (js_curve_loop m k tMax noise rnd (t + step_of tMax)
                 (if noise \<noteq> 0 then Suc c else c)). P p"
    proof (rule "1.IH" [OF True refl refl])
      fix t' c' assume "t + step_of tMax \<le> t'"
      then have "t \<le> t'" using st by linarith
      then show "P (js_mk_point t' (js_ideal m k tMax t') (js_eps noise (rnd c') (js_ideal m k tMax t')))"
        by (rule "1.prems")
    qed
    show ?thesis
      using hd tl True by (subst js_curve_loop.simps) (simp add: Let_def)
  next
    case False
    then show ?thesis
      by (subst js_curve_loop.simps) simp
  qed
qed

lemma js_point_range:
  assumes k: "0 \<le> k" "k \<le> 10 ^ 307"
    and noise: "\<bar>noise\<bar> < overflow_threshold"
    and r: "0 \<le> r" "r < 1"
    and t: "0 \<le> t"
  shows "\<exists>u. jp_y (js_mk_point t (js_ideal m k tMax t) (js_eps noise r (js_ideal m k tMax t))) = Fin u
           \<and> 0 \<le> u \<and> u \<le> 1
           \<and> jp_yLo (js_mk_point t (js_ideal m k tMax t) (js_eps noise r (js_ideal m k tMax t)))
               = Fin (9 / 10 * u)
           \<and> jp_yHi (js_mk_point t (js_ideal m k tMax t) (js_eps noise r (js_ideal m k tMax t)))
               = Fin (min 1 (11 / 10 * u))"
proof -
  obtain v where v: "js_ideal m k tMax t = Fin v" "0 \<le> v" "v \<le> 1"
    using js_ideal_range [OF k t] by blast
  obtain e where e: "js_eps noise r (Fin v) = Fin e"
    using js_eps_Fin [OF noise r v(2,3)] by blast
  show ?thesis
    unfolding v(1) e by (rule js_mk_point_range [OF v(2,3)])
qed

lemma js_useCurve_first:
  "0 \<le> tMax \<Longrightarrow>
   \<exists>ps. js_useCurve m k tMax noise rnd =
     js_mk_point 0 (js_ideal m k tMax 0) (js_eps noise (rnd 0) (js_ideal m k tMax 0)) # ps"
  unfolding js_useCurve_def by (subst js_curve_loop.simps) (simp add: Let_def)

lemma js_ideal_exp_0: "js_ideal Exp k tMax 0 = Fin 1"
  by (simp add: js_ideal_def ovf_small)

text \<open>
  On the exponential model without noise the two models agree as long as \<open>k * tMax\<close> does
  not overflow.
\<close>


lemma js_mk_point_agrees:
  assumes "0 \<le> v" "v \<le> 1"
  shows "js_mk_point t (Fin v) (Fin 0) = js_of_point (mk_point t v 0)"
proof -
  have "\<bar>v\<bar> \<le> 2" "\<bar>v * (9 / 10)\<bar> \<le> 2" "\<bar>v * (11 / 10)\<bar> \<le> 2"
    using assms by (simp_all add: abs_mult)
  then have o: "ovf v = Fin v" "ovf (v * (9 / 10)) = Fin (v * (9 / 10))"
    "ovf (v * (11 / 10)) = Fin (v * (11 / 10))"
    by (simp_all only: ovf_small)
  show ?thesis
    using assms o by (simp add: js_mk_point_def mk_point_def js_of_point_def Let_def)
qed

lemma js_ideal_exp_agrees:
  assumes "0 \<le> k" "0 \<le> t" "k * t < overflow_threshold"
  shows "js_ideal Exp k tMax t = Fin (ideal_of Exp k tMax t)
         \<and> 0 \<le> ideal_of Exp k tMax t \<and> ideal_of Exp k tMax t \<le> 1"
proof -
  have np: "- k * t \<le> 0" using assms(1,2) by (simp add: mult_nonneg_nonneg)
  have "\<bar>- k * t\<bar> < overflow_threshold" using np assms(3) by simp
  then have m: "ovf (- k * t) = Fin (- k * t)" by (rule ovf_Fin)
  have e: "0 \<le> exp (- k * t)" "exp (- k * t) \<le> 1" using np by simp_all
  then have "\<bar>exp (- k * t)\<bar> \<le> 2" by linarith
  then have "ovf (exp (- k * t)) = Fin (exp (- k * t))" by (rule ovf_small)
  then show ?thesis
    using m e by (simp add: js_ideal_def ideal_of_def)
qed

lemma js_curve_loop_exp_agrees:
  "0 \<le> k \<Longrightarrow> k * tMax < overflow_threshold \<Longrightarrow> 0 \<le> t \<Longrightarrow>
   js_curve_loop Exp k tMax 0 rnd t c = map js_of_point (curve_loop Exp k tMax 0 rnd t c)"
proof (induction Exp k tMax "0::real" rnd t c rule: curve_loop.induct)
  case (1 k tMax rnd t c)
  show ?case
  proof (cases "t \<le> tMax")
    case True
    have "k * t \<le> k * tMax" using True "1.prems"(1) by (rule mult_left_mono)
    then have kt: "k * t < overflow_threshold" using "1.prems"(2) by linarith
    note i = js_ideal_exp_agrees [OF "1.prems"(1,3) kt, of tMax]
    have hd: "js_mk_point t (js_ideal Exp k tMax t) (js_eps 0 (rnd c) (js_ideal Exp k tMax t)) =
        js_of_point (mk_point t (ideal_of Exp k tMax t) 0)"
      using i js_mk_point_agrees [of "ideal_of Exp k tMax t" t] by (simp add: js_eps_def)
    have "0 \<le> t + step_of tMax" using "1.prems"(3) step_of_ge_1 [of tMax] by linarith
    then have tl: "js_curve_loop Exp k tMax 0 rnd (t + step_of tMax) c =
        map js_of_point (curve_loop Exp k tMax 0 rnd (t + step_of tMax) c)"
      using "1.hyps" [OF True refl refl] "1.prems"(1,2) by simp
    show ?thesis
      using js_curve_loop_step [OF True, of Exp k 0 rnd c]
      by (simp add: curve_loop_head [OF True] hd tl)
  next
    case False
    then show ?thesis by (simp add: js_curve_loop_stop curve_loop_stop)
  qed
qed

lemma js_useCurve_exp_agrees:
  "0 \<le> k \<Longrightarrow> k * tMax < overflow_threshold \<Longrightarrow>
   js_useCurve Exp k tMax 0 rnd = map js_of_point (useCurve Exp k tMax 0 rnd)"
  unfolding js_useCurve_def useCurve_def by (rule js_curve_loop_exp_agrees) simp_all

text \<open>
  Two runs that produce NaN. With \<open>k = -1000\<close> the exponential model computes
  \<open>Math.exp(1000)\<close>, an infinity, at \<open>t = 1\<close>; the noise term is then \<open>-Infinity\<close> and their sum
  is NaN. With \<open>k = 1e308\<close> the logistic steepness \<open>10 * k\<close> is an infinity, and at
  \<open>t = x0\<close> the product \<open>-Infinity * 0\<close> is NaN.
\<close>


lemma exp_1000_overflows: "overflow_threshold \<le> exp (1000 :: real)"
proof -
  have "(5 / 2 :: real) \<le> exp 1"
    using exp_lower_Taylor_quadratic [of "1::real"] by simp
  then have "(5 / 2 :: real) ^ 1000 \<le> exp 1 ^ 1000"
    by (intro power_mono) simp_all
  also have "\<dots> = exp (1000 :: real)"
    using exp_of_nat_mult [of 1000 "1::real"] by simp
  finally have a: "(5 / 2 :: real) ^ 1000 \<le> exp 1000" .
  have "(2::real) ^ 1024 \<le> 2 ^ 1250" by (intro power_increasing) simp_all
  also have "\<dots> = ((2::real) ^ 5) ^ 250" by (simp only: power_mult [symmetric]) simp
  also have "\<dots> \<le> ((5 / 2) ^ 4) ^ 250" by (intro power_mono) (simp_all add: power_divide)
  also have "\<dots> = (5 / 2 :: real) ^ 1000" by (simp only: power_mult [symmetric]) simp
  finally have b: "(2::real) ^ 1024 \<le> (5 / 2) ^ 1000" .
  have "overflow_threshold \<le> 2 ^ 1024" by (simp add: overflow_threshold_def)
  then show ?thesis using a b by linarith
qed

lemma ovf_1000: "ovf 1000 = Fin 1000"
  using threshold_large by (intro ovf_Fin) simp

lemma ovf_exp_1000: "ovf (exp 1000) = PInf"
  using exp_1000_overflows by (simp add: ovf_def)

lemma js_exp_overflow_run:
  "js_useCurve Exp (- 1000) 1 (1 / 10) (\<lambda>i. 0) =
     [\<lparr>jp_t = 0, jp_y = Fin (9 / 10), jp_yLo = Fin (81 / 100), jp_yHi = Fin (99 / 100)\<rparr>,
      \<lparr>jp_t = 1, jp_y = NaN, jp_yLo = NaN, jp_yHi = NaN\<rparr>]"
proof -
  have st: "step_of 1 = 1" by (simp add: step_of_def)
  have i0: "js_ideal Exp (- 1000) 1 0 = Fin 1"
    by (simp add: js_ideal_def ovf_small)
  have i1: "js_ideal Exp (- 1000) 1 1 = PInf"
    by (simp add: js_ideal_def ovf_1000 ovf_exp_1000)
  have e0: "js_eps (1 / 10) 0 (Fin 1) = Fin (- (1 / 10))"
    by (simp add: js_eps_def jsub_def ovf_small)
  have e1: "js_eps (1 / 10) 0 PInf = NInf"
    by (simp add: js_eps_def jsub_def ovf_small)
  have p0: "js_mk_point 0 (Fin 1) (Fin (- (1 / 10))) =
      \<lparr>jp_t = 0, jp_y = Fin (9 / 10), jp_yLo = Fin (81 / 100), jp_yHi = Fin (99 / 100)\<rparr>"
    by (simp add: js_mk_point_def Let_def ovf_small)
  have p1: "js_mk_point 1 PInf NInf = \<lparr>jp_t = 1, jp_y = NaN, jp_yLo = NaN, jp_yHi = NaN\<rparr>"
    by (simp add: js_mk_point_def Let_def)
  have "js_curve_loop Exp (- 1000) 1 (1 / 10) (\<lambda>i. 0) 0 0 =
      js_mk_point 0 (Fin 1) (Fin (- (1 / 10))) # js_curve_loop Exp (- 1000) 1 (1 / 10) (\<lambda>i. 0) 1 (Suc 0)"
    using js_curve_loop_step [of 0 1 Exp "- 1000" "1 / 10" "\<lambda>i. 0" 0] by (simp add: st i0 e0)
  moreover have "js_curve_loop Exp (- 1000) 1 (1 / 10) (\<lambda>i. 0) 1 (Suc 0) =
      js_mk_point 1 PInf NInf # js_curve_loop Exp (- 1000) 1 (1 / 10) (\<lambda>i. 0) 2 (Suc (Suc 0))"
    using js_curve_loop_step [of 1 1 Exp "- 1000" "1 / 10" "\<lambda>i. 0" "Suc 0"] by (simp add: st i1 e1)
  moreover have "js_curve_loop Exp (- 1000) 1 (1 / 10) (\<lambda>i. 0) 2 (Suc (Suc 0)) = []"
    by (rule js_curve_loop_stop) simp
  ultimately show ?thesis
    by (simp add: js_useCurve_def p0 p1)
qed

lemma js_logistic_overflow_run:
  assumes "overflow_threshold \<le> 10 * k"
  shows "jp_y (js_useCurve Logistic k 4 (1 / 10) (\<lambda>i. 0) ! 1) = NaN"
proof -
  have st: "step_of 4 = 1" by (simp add: step_of_def)
  have s: "jmax (Fin (1 / 1000)) (jmul (Fin 10) (Fin k)) = PInf"
    using assms by (simp add: ovf_def)
  have x0: "jmul (Fin 4) (Fin (25 / 100)) = Fin 1"
    by (simp add: ovf_small)
  have d: "jsub (Fin 1) (Fin 1) = Fin 0"
    by (simp add: jsub_def ovf_small)
  have i1: "js_ideal Logistic k 4 1 = NaN"
    unfolding js_ideal_def Let_def model.case s x0 d by (simp add: jsub_def)
  have "js_curve_loop Logistic k 4 (1 / 10) (\<lambda>i. 0) 0 0 =
      js_mk_point 0 (js_ideal Logistic k 4 0) (js_eps (1 / 10) 0 (js_ideal Logistic k 4 0)) #
      js_curve_loop Logistic k 4 (1 / 10) (\<lambda>i. 0) 1 (Suc 0)"
    using js_curve_loop_step [of 0 4 Logistic k "1 / 10" "\<lambda>i. 0" 0] by (simp add: st)
  moreover have "js_curve_loop Logistic k 4 (1 / 10) (\<lambda>i. 0) 1 (Suc 0) =
      js_mk_point 1 NaN (js_eps (1 / 10) 0 NaN) #
      js_curve_loop Logistic k 4 (1 / 10) (\<lambda>i. 0) 2 (Suc (Suc 0))"
    using js_curve_loop_step [of 1 4 Logistic k "1 / 10" "\<lambda>i. 0" "Suc 0"] by (simp add: st i1)
  ultimately have "js_useCurve Logistic k 4 (1 / 10) (\<lambda>i. 0) ! 1 =
      js_mk_point 1 NaN (js_eps (1 / 10) 0 NaN)"
    by (simp add: js_useCurve_def)
  then show ?thesis
    by (simp add: js_mk_point_def Let_def js_eps_def)
qed

text \<open>
  Claim C3, as amended. For every model, every rate \<open>k\<close> with \<open>0 \<le> k \<le> 1e307\<close>, every
  horizon, every noise amplitude in [0, 0.1] and draws in [0, 1), each generated value \<open>y\<close>
  is a finite number in [0, 1].
\<close>


theorem js_useCurve_values_clamped:
  assumes "0 \<le> k" "k \<le> 10 ^ 307"
    and "0 \<le> noise" "noise \<le> 1 / 10"
    and "\<forall>i. 0 \<le> rnd i \<and> rnd i < 1"
  shows "\<forall>p \<in> set (js_useCurve m k tMax noise rnd). \<exists>v. jp_y p = Fin v \<and> 0 \<le> v \<and> v \<le> 1"
  unfolding js_useCurve_def
proof (rule js_curve_loop_points)
  fix t' :: real and c' :: nat
  assume t: "0 \<le> t'"
  have n: "\<bar>noise\<bar> < overflow_threshold"
    using assms(3,4) threshold_gt_2 by linarith
  have r: "0 \<le> rnd c'" "rnd c' < 1" using assms(5) by simp_all
  from js_point_range [OF assms(1,2) n r t, of m tMax]
  show "\<exists>v. jp_y (js_mk_point t' (js_ideal m k tMax t') (js_eps noise (rnd c') (js_ideal m k tMax t')))
          = Fin v \<and> 0 \<le> v \<and> v \<le> 1"
    by blast
qed

text \<open>
  At noise 0.1 with a first draw of 3/4 the perturbed value at \<open>t = 0\<close> is 1.05 before the
  clamp.
\<close>


theorem js_useCurve_values_clamped_witness:
  "(0::real) \<le> 3 / 100 \<and> (3 / 100 :: real) \<le> 10 ^ 307
   \<and> (0::real) \<le> 1 / 10 \<and> (0::real) \<le> 3 / 4 \<and> (3 / 4 :: real) < 1
   \<and> js_mk_point 0 (Fin 1) (Fin (1 / 20)) \<in> set (js_useCurve Exp (3 / 100) 93 (1 / 10) (\<lambda>i. 3 / 4))
   \<and> jadd (Fin 1) (Fin (1 / 20)) = Fin (21 / 20)
   \<and> jp_y (js_mk_point 0 (Fin 1) (Fin (1 / 20))) = Fin 1
   \<and> (\<exists>v. jp_y (js_mk_point 0 (Fin 1) (Fin (1 / 20))) = Fin v \<and> 0 \<le> v \<and> v \<le> 1)"
proof -
  have e: "js_eps (1 / 10) (3 / 4) (Fin 1) = Fin (1 / 20)"
    by (simp add: js_eps_def jsub_def ovf_small)
  obtain ps where "js_useCurve Exp (3 / 100) 93 (1 / 10) (\<lambda>i. 3 / 4) =
      js_mk_point 0 (Fin 1) (Fin (1 / 20)) # ps"
    using js_useCurve_first [of 93 Exp "3 / 100" "1 / 10" "\<lambda>i. 3 / 4"]
    by (auto simp add: js_ideal_exp_0 e)
  then have mem: "js_mk_point 0 (Fin 1) (Fin (1 / 20)) \<in> set (js_useCurve Exp (3 / 100) 93 (1 / 10) (\<lambda>i. 3 / 4))"
    by simp
  have y: "jp_y (js_mk_point 0 (Fin 1) (Fin (1 / 20))) = Fin 1"
    by (simp add: js_mk_point_def Let_def ovf_small)
  have a: "jadd (Fin 1) (Fin (1 / 20)) = Fin (21 / 20)"
    by (simp add: ovf_small)
  have h: "(0::real) \<le> 3 / 100" "(3 / 100 :: real) \<le> 10 ^ 307" "(0::real) \<le> 1 / 10" "(1 / 10 :: real) \<le> 1 / 10"
    "\<forall>i::nat. (0::real) \<le> 3 / 4 \<and> (3 / 4 :: real) < 1"
    by simp_all
  from js_useCurve_values_clamped [OF h, of Exp 93] mem
  have "\<exists>v. jp_y (js_mk_point 0 (Fin 1) (Fin (1 / 20))) = Fin v \<and> 0 \<le> v \<and> v \<le> 1"
    by blast
  then show ?thesis
    using mem y a h(2) by simp
qed

text \<open>
  Outside that range of rates the clamp lets NaN through: \<^verbatim>\<open>Math.min\<close> and \<^verbatim>\<open>Math.max\<close>
  return NaN for a NaN argument.
\<close>


theorem js_useCurve_nan_counterexample:
  "js_useCurve Exp (- 1000) 1 (1 / 10) (\<lambda>i. 0) =
     [\<lparr>jp_t = 0, jp_y = Fin (9 / 10), jp_yLo = Fin (81 / 100), jp_yHi = Fin (99 / 100)\<rparr>,
      \<lparr>jp_t = 1, jp_y = NaN, jp_yLo = NaN, jp_yHi = NaN\<rparr>]
   \<and> \<not> (\<forall>p \<in> set (js_useCurve Exp (- 1000) 1 (1 / 10) (\<lambda>i. 0)).
           \<exists>v. jp_y p = Fin v \<and> 0 \<le> v \<and> v \<le> 1)
   \<and> jp_y (js_useCurve Logistic (10 ^ 308) 4 (1 / 10) (\<lambda>i. 0) ! 1) = NaN"
proof (intro conjI)
  show "js_useCurve Exp (- 1000) 1 (1 / 10) (\<lambda>i. 0) =
     [\<lparr>jp_t = 0, jp_y = Fin (9 / 10), jp_yLo = Fin (81 / 100), jp_yHi = Fin (99 / 100)\<rparr>,
      \<lparr>jp_t = 1, jp_y = NaN, jp_yLo = NaN, jp_yHi = NaN\<rparr>]"
    by (rule js_exp_overflow_run)
  show "\<not> (\<forall>p \<in> set (js_useCurve Exp (- 1000) 1 (1 / 10) (\<lambda>i. 0)).
           \<exists>v. jp_y p = Fin v \<and> 0 \<le> v \<and> v \<le> 1)"
    unfolding js_exp_overflow_run by simp
  have "overflow_threshold \<le> 10 * 10 ^ 308"
    by (simp add: overflow_threshold_def)
  then show "jp_y (js_useCurve Logistic (10 ^ 308) 4 (1 / 10) (\<lambda>i. 0) ! 1) = NaN"
    by (rule js_logistic_overflow_run)
qed

text \<open>
  Claim C6, as amended. For every rate \<open>k\<close> with \<open>0 \<le> k \<le> 1e307\<close>, every finite noise
  amplitude and draws in [0, 1), every generated point has a finite value \<open>y\<close> in [0, 1],
  the lower bound \<open>yLo = 0.9 * y\<close>, and the upper bound \<open>yHi = min 1 (1.1 * y)\<close>: it is
  \<open>1.1 * y\<close> capped at 1.
\<close>


theorem js_useCurve_bounds:
  assumes "0 \<le> k" "k \<le> 10 ^ 307"
    and "\<bar>noise\<bar> < overflow_threshold"
    and "\<forall>i. 0 \<le> rnd i \<and> rnd i < 1"
  shows "\<forall>p \<in> set (js_useCurve m k tMax noise rnd).
           \<exists>v. jp_y p = Fin v \<and> 0 \<le> v \<and> v \<le> 1
             \<and> jp_yLo p = Fin (9 / 10 * v)
             \<and> jp_yHi p = Fin (min 1 (11 / 10 * v))"
  unfolding js_useCurve_def
proof (rule js_curve_loop_points)
  fix t' :: real and c' :: nat
  assume t: "0 \<le> t'"
  have r: "0 \<le> rnd c'" "rnd c' < 1" using assms(4) by simp_all
  show "\<exists>v. jp_y (js_mk_point t' (js_ideal m k tMax t') (js_eps noise (rnd c') (js_ideal m k tMax t')))
            = Fin v \<and> 0 \<le> v \<and> v \<le> 1
          \<and> jp_yLo (js_mk_point t' (js_ideal m k tMax t') (js_eps noise (rnd c') (js_ideal m k tMax t')))
            = Fin (9 / 10 * v)
          \<and> jp_yHi (js_mk_point t' (js_ideal m k tMax t') (js_eps noise (rnd c') (js_ideal m k tMax t')))
            = Fin (min 1 (11 / 10 * v))"
    by (rule js_point_range [OF assms(1,2,3) r t])
qed

theorem js_useCurve_bounds_witness:
  "(0::real) \<le> 3 / 100 \<and> (3 / 100 :: real) \<le> 10 ^ 307
   \<and> \<bar>0 :: real\<bar> < overflow_threshold
   \<and> js_mk_point 0 (Fin 1) (Fin 0) \<in> set (js_useCurve Exp (3 / 100) 93 0 (\<lambda>i. 0))
   \<and> (\<exists>v. jp_y (js_mk_point 0 (Fin 1) (Fin 0)) = Fin v \<and> 0 \<le> v \<and> v \<le> 1
         \<and> jp_yLo (js_mk_point 0 (Fin 1) (Fin 0)) = Fin (9 / 10 * v)
         \<and> jp_yHi (js_mk_point 0 (Fin 1) (Fin 0)) = Fin (min 1 (11 / 10 * v)))"
proof -
  obtain ps where "js_useCurve Exp (3 / 100) 93 0 (\<lambda>i. 0) = js_mk_point 0 (Fin 1) (Fin 0) # ps"
    using js_useCurve_first [of 93 Exp "3 / 100" 0 "\<lambda>i. 0"]
    by (auto simp add: js_ideal_exp_0 js_eps_def)
  then have mem: "js_mk_point 0 (Fin 1) (Fin 0) \<in> set (js_useCurve Exp (3 / 100) 93 0 (\<lambda>i. 0))"
    by simp
  have h: "(0::real) \<le> 3 / 100" "(3 / 100 :: real) \<le> 10 ^ 307" "\<bar>0 :: real\<bar> < overflow_threshold"
    "\<forall>i::nat. (0::real) \<le> 0 \<and> (0 :: real) < 1"
    using threshold_gt_2 by simp_all
  from js_useCurve_bounds [OF h, of Exp 93] mem
  have "\<exists>v. jp_y (js_mk_point 0 (Fin 1) (Fin 0)) = Fin v \<and> 0 \<le> v \<and> v \<le> 1
         \<and> jp_yLo (js_mk_point 0 (Fin 1) (Fin 0)) = Fin (9 / 10 * v)
         \<and> jp_yHi (js_mk_point 0 (Fin 1) (Fin 0)) = Fin (min 1 (11 / 10 * v))"
    by blast
  then show ?thesis
    using mem h(2,3) by simp
qed

text \<open>
  The first point of the exponential curve has \<open>y = 1\<close> and \<open>yHi = 1\<close>, not 1.1.
\<close>


theorem js_useCurve_upper_bound_counterexample:
  "js_mk_point 0 (Fin 1) (Fin 0) \<in> set (js_useCurve Exp (3 / 100) 93 0 (\<lambda>i. 0))
   \<and> js_mk_point 0 (Fin 1) (Fin 0) = \<lparr>jp_t = 0, jp_y = Fin 1, jp_yLo = Fin (9 / 10), jp_yHi = Fin 1\<rparr>
   \<and> jmul (jp_y (js_mk_point 0 (Fin 1) (Fin 0))) (Fin (11 / 10)) = Fin (11 / 10)
   \<and> jp_yHi (js_mk_point 0 (Fin 1) (Fin 0)) \<noteq> jmul (jp_y (js_mk_point 0 (Fin 1) (Fin 0))) (Fin (11 / 10))"
proof -
  obtain ps where "js_useCurve Exp (3 / 100) 93 0 (\<lambda>i. 0) = js_mk_point 0 (Fin 1) (Fin 0) # ps"
    using js_useCurve_first [of 93 Exp "3 / 100" 0 "\<lambda>i. 0"]
    by (auto simp add: js_ideal_exp_0 js_eps_def)
  then have mem: "js_mk_point 0 (Fin 1) (Fin 0) \<in> set (js_useCurve Exp (3 / 100) 93 0 (\<lambda>i. 0))"
    by simp
  have p: "js_mk_point 0 (Fin 1) (Fin 0) = \<lparr>jp_t = 0, jp_y = Fin 1, jp_yLo = Fin (9 / 10), jp_yHi = Fin 1\<rparr>"
    by (simp add: js_mk_point_def Let_def ovf_small)
  show ?thesis
    using mem by (simp add: p ovf_small)
qed

subsection \<open>The floors on the rate\<close>


section \<open>Properties of the drivers demo\<close>


lemma day1_base:
  "map_of SAMPLE_FEATURES ''Day 1'' = Some
        [(''Freshness'', 24 / 100), (''Sillage'', 18 / 100), (''Longevity'', 12 / 100),
         (''Price'', 6 / 100), (''Brand'', 5 / 100), (''Eco Score'', 8 / 100),
         (''Package'', 10 / 100), (''Texture'', 17 / 100)]"
  by (simp add: SAMPLE_FEATURES_def)

lemma day7_base:
  "map_of SAMPLE_FEATURES ''Day 7'' = Some
        [(''Freshness'', 18 / 100), (''Sillage'', 22 / 100), (''Longevity'', 16 / 100),
         (''Price'', 5 / 100), (''Brand'', 4 / 100), (''Eco Score'', 9 / 100),
         (''Package'', 8 / 100), (''Texture'', 18 / 100)]"
  by (simp add: SAMPLE_FEATURES_def)

lemma day14_base:
  "map_of SAMPLE_FEATURES ''Day 14'' = Some
        [(''Freshness'', 15 / 100), (''Sillage'', 25 / 100), (''Longevity'', 19 / 100),
         (''Price'', 4 / 100), (''Brand'', 3 / 100), (''Eco Score'', 10 / 100),
         (''Package'', 7 / 100), (''Texture'', 17 / 100)]"
  by (simp add: SAMPLE_FEATURES_def)

lemma known_label:
  "tp \<in> set time_points \<Longrightarrow> \<exists>base. map_of SAMPLE_FEATURES tp = Some base"
  using day1_base day7_base day14_base by (auto simp add: time_points_def)

lemma perturb_noiseless:
  "perturb 0 rnd c es = map (\<lambda>(k, v). \<lparr>f_name = k, f_value = max 0 v\<rparr>) es"
  by (induction es arbitrary: c) auto

text \<open>
  The rankings without noise. On Day 7 Freshness and Texture have the same weight 0.18 and
  keep the order of the table.
\<close>


lemma sorted_day1:
  "sorted_features ''Day 1'' 0 rnd = Inr
     [\<lparr>f_name = ''Freshness'', f_value = 24 / 100\<rparr>, \<lparr>f_name = ''Sillage'', f_value = 18 / 100\<rparr>,
      \<lparr>f_name = ''Texture'', f_value = 17 / 100\<rparr>, \<lparr>f_name = ''Longevity'', f_value = 12 / 100\<rparr>,
      \<lparr>f_name = ''Package'', f_value = 10 / 100\<rparr>, \<lparr>f_name = ''Eco Score'', f_value = 8 / 100\<rparr>,
      \<lparr>f_name = ''Price'', f_value = 6 / 100\<rparr>, \<lparr>f_name = ''Brand'', f_value = 5 / 100\<rparr>]"
  by (simp add: sorted_features_def features_def day1_base perturb_noiseless sort_cmp_def by_value_desc_def)

lemma sorted_day7:
  "sorted_features ''Day 7'' 0 rnd = Inr
     [\<lparr>f_name = ''Sillage'', f_value = 22 / 100\<rparr>, \<lparr>f_name = ''Freshness'', f_value = 18 / 100\<rparr>,
      \<lparr>f_name = ''Texture'', f_value = 18 / 100\<rparr>, \<lparr>f_name = ''Longevity'', f_value = 16 / 100\<rparr>,
      \<lparr>f_name = ''Eco Score'', f_value = 9 / 100\<rparr>, \<lparr>f_name = ''Package'', f_value = 8 / 100\<rparr>,
      \<lparr>f_name = ''Price'', f_value = 5 / 100\<rparr>, \<lparr>f_name = ''Brand'', f_value = 4 / 100\<rparr>]"
  by (simp add: sorted_features_def features_def day7_base perturb_noiseless sort_cmp_def by_value_desc_def)

lemma sorted_day14:
  "sorted_features ''Day 14'' 0 rnd = Inr
     [\<lparr>f_name = ''Sillage'', f_value = 25 / 100\<rparr>, \<lparr>f_name = ''Longevity'', f_value = 19 / 100\<rparr>,
      \<lparr>f_name = ''Texture'', f_value = 17 / 100\<rparr>, \<lparr>f_name = ''Freshness'', f_value = 15 / 100\<rparr>,
      \<lparr>f_name = ''Eco Score'', f_value = 10 / 100\<rparr>, \<lparr>f_name = ''Package'', f_value = 7 / 100\<rparr>,
      \<lparr>f_name = ''Price'', f_value = 4 / 100\<rparr>, \<lparr>f_name = ''Brand'', f_value = 3 / 100\<rparr>]"
  by (simp add: sorted_features_def features_def day14_base perturb_noiseless sort_cmp_def by_value_desc_def)

lemma day1_ranking:
  "map_of SAMPLE_FEATURES ''Day 1'' = Some day1 \<Longrightarrow>
   map fst (sort_cmp by_weight_desc day1) =
     [''Freshness'', ''Sillage'', ''Texture'', ''Longevity'', ''Package'', ''Eco Score'',
      ''Price'', ''Brand'']"
  by (auto simp add: day1_base sort_cmp_def by_weight_desc_def)

lemma stability_day1: "stability ''Day 1'' 0 rnd = Inr 1"
  by (simp add: stability_def stability_of_def features_def day1_base perturb_noiseless
      sort_cmp_def by_value_desc_def by_weight_desc_def Let_def)

text \<open>
  Claim C4. With noise amplitude 0, for each of the labels "Day 1", "Day 7" and "Day 14",
  the ranking \<open>sorted\<close> lists the names and weights of the table's entries for that label in
  descending order of weight: it is the stable sort of the entries by decreasing weight,
  and its values are non-increasing.
\<close>


theorem drivers_ranking_noiseless:
  assumes "tp \<in> set time_points"
  shows "\<exists>base fs. map_of SAMPLE_FEATURES tp = Some base
           \<and> sorted_features tp 0 rnd = Inr fs
           \<and> map (\<lambda>f. (f_name f, f_value f)) fs = sort_key (\<lambda>e. - snd e) base
           \<and> sorted_wrt (\<lambda>a b. f_value b \<le> f_value a) fs"
proof -
  from assms consider "tp = ''Day 1''" | "tp = ''Day 7''" | "tp = ''Day 14''"
    by (auto simp add: time_points_def)
  then show ?thesis
  proof cases
    case 1
    show ?thesis unfolding 1 by (simp add: day1_base sorted_day1)
  next
    case 2
    show ?thesis unfolding 2 by (simp add: day7_base sorted_day7)
  next
    case 3
    show ?thesis unfolding 3 by (simp add: day14_base sorted_day14)
  qed
qed

theorem drivers_ranking_noiseless_witness:
  "''Day 7'' \<in> set time_points
   \<and> map f_name (projr (sorted_features ''Day 7'' 0 (\<lambda>i. 0))) =
       [''Sillage'', ''Freshness'', ''Texture'', ''Longevity'', ''Eco Score'', ''Package'',
        ''Price'', ''Brand'']
   \<and> (\<exists>base fs. map_of SAMPLE_FEATURES ''Day 7'' = Some base
           \<and> sorted_features ''Day 7'' 0 (\<lambda>i. 0) = Inr fs
           \<and> map (\<lambda>f. (f_name f, f_value f)) fs = sort_key (\<lambda>e. - snd e) base
           \<and> sorted_wrt (\<lambda>a b. f_value b \<le> f_value a) fs)"
proof -
  have m: "''Day 7'' \<in> set time_points" by (simp add: time_points_def)
  show ?thesis
    using drivers_ranking_noiseless [OF m, of "\<lambda>i. 0"] m by (simp add: sorted_day7)
qed

text \<open>
  Claim C9. For each of the three labels, every noise amplitude (in particular every one in
  the slider's range [0, 0.08]) and every sequence of draws, the raw score is
  \<open>matches / length * 0.3 + 0.7 - noise * 0.5\<close>, the number shown is
  \<open>max 0.5 (min 1 raw)\<close>, and it lies in [0.5, 1]. With noise 0 on "Day 1" it is 1.
\<close>


theorem stability_shown_range:
  assumes "tp \<in> set time_points"
  shows "(\<exists>fs raw v. features tp noise rnd = Inr fs
            \<and> raw = real (count_matches (map f_name (sort_cmp by_value_desc fs))
                       [''Freshness'', ''Sillage'', ''Texture'', ''Longevity'', ''Package'',
                        ''Eco Score'', ''Price'', ''Brand''])
                     / real (length (map f_name (sort_cmp by_value_desc fs))) * (3 / 10)
                   + 7 / 10 - noise * (5 / 10)
            \<and> stability tp noise rnd = Inr raw
            \<and> stability_shown tp noise rnd = Inr v
            \<and> v = max (5 / 10) (min 1 raw)
            \<and> 5 / 10 \<le> v \<and> v \<le> 1)
         \<and> stability_shown ''Day 1'' 0 rnd = Inr 1"
proof
  obtain base where b: "map_of SAMPLE_FEATURES tp = Some base"
    using known_label [OF assms] by auto
  have f: "features tp noise rnd = Inr (perturb noise rnd 0 base)"
    by (simp add: features_def b)
  have r: "stability tp noise rnd =
      Inr (real (count_matches (map f_name (sort_cmp by_value_desc (perturb noise rnd 0 base)))
                       [''Freshness'', ''Sillage'', ''Texture'', ''Longevity'', ''Package'',
                        ''Eco Score'', ''Price'', ''Brand''])
           / real (length (map f_name (sort_cmp by_value_desc (perturb noise rnd 0 base)))) * (3 / 10)
           + 7 / 10 - noise * (5 / 10))"
    using day1_ranking [OF day1_base]
    by (simp add: stability_def stability_of_def f day1_base Let_def)
  have c: "5 / 10 \<le> max (5 / 10) (min 1 x) \<and> max (5 / 10) (min 1 x) \<le> 1" for x :: real
    by simp
  have sh: "stability_shown tp noise rnd =
      Inr (max (5 / 10) (min 1
        (real (count_matches (map f_name (sort_cmp by_value_desc (perturb noise rnd 0 base)))
                       [''Freshness'', ''Sillage'', ''Texture'', ''Longevity'', ''Package'',
                        ''Eco Score'', ''Price'', ''Brand''])
           / real (length (map f_name (sort_cmp by_value_desc (perturb noise rnd 0 base)))) * (3 / 10)
           + 7 / 10 - noise * (5 / 10))))"
    by (simp only: stability_shown_def r sum.case)
  show "\<exists>fs raw v. features tp noise rnd = Inr fs
            \<and> raw = real (count_matches (map f_name (sort_cmp by_value_desc fs))
                       [''Freshness'', ''Sillage'', ''Texture'', ''Longevity'', ''Package'',
                        ''Eco Score'', ''Price'', ''Brand''])
                     / real (length (map f_name (sort_cmp by_value_desc fs))) * (3 / 10)
                   + 7 / 10 - noise * (5 / 10)
            \<and> stability tp noise rnd = Inr raw
            \<and> stability_shown tp noise rnd = Inr v
            \<and> v = max (5 / 10) (min 1 raw)
            \<and> 5 / 10 \<le> v \<and> v \<le> 1"
    by (intro exI conjI, rule f, rule refl, rule r, rule sh, rule refl)
       (rule c [THEN conjunct1], rule c [THEN conjunct2])
  show "stability_shown ''Day 1'' 0 rnd = Inr 1"
    by (simp add: stability_shown_def stability_day1)
qed

theorem stability_shown_range_witness:
  "''Day 7'' \<in> set time_points
   \<and> (\<exists>raw v. stability ''Day 7'' (8 / 100) (\<lambda>i. 0) = Inr raw
            \<and> stability_shown ''Day 7'' (8 / 100) (\<lambda>i. 0) = Inr v
            \<and> v = max (5 / 10) (min 1 raw)
            \<and> 5 / 10 \<le> v \<and> v \<le> 1)
   \<and> stability_shown ''Day 1'' 0 (\<lambda>i. 0) = Inr 1"
proof -
  have m: "''Day 7'' \<in> set time_points" by (simp add: time_points_def)
  show ?thesis
    using stability_shown_range [OF m, of "8 / 100" "\<lambda>i. 0"] m by auto
qed

section \<open>Properties of the comparison table\<close>


lemma em_dash_not_yes: "em_dash \<noteq> ''Yes''"
  by (simp add: em_dash_def)

text \<open>
  Claim C10. With the switch off every row is given \<open>fabric = false\<close>, whatever its own
  \<open>fabric\<close> field is, and its Fabric cell shows the dash; the \<open>classic\<close> prop and the Classic
  cell are the row's \<open>classic\<close> field, whatever the switch; with the switch on the
  \<open>fabric\<close> prop and the Fabric cell are the row's \<open>fabric\<close> field.
\<close>


theorem AzureComparison_cells:
  "cap_fabric (row_props False r) = False
   \<and> cap_classic (row_props sf r) = cap_classic r
   \<and> cap_fabric (row_props True r) = cap_fabric r
   \<and> map cell_fabric (AzureComparison False) = replicate (length rows) em_dash
   \<and> map cell_classic (AzureComparison sf) = map (\<lambda>r. if cap_classic r then ''Yes'' else em_dash) rows
   \<and> map cell_fabric (AzureComparison True) = map (\<lambda>r. if cap_fabric r then ''Yes'' else em_dash) rows
   \<and> em_dash \<noteq> ''Yes''"
proof -
  have off: "map cell_fabric (map (\<lambda>r. CapabilityRow (row_props False r)) rs) = replicate (length rs) em_dash"
    for rs
    by (induction rs) (simp_all add: CapabilityRow_def row_props_def)
  show ?thesis
    using off [of rows]
    by (simp add: AzureComparison_def CapabilityRow_def row_props_def em_dash_not_yes comp_def)
qed

section \<open>Properties of the click handlers\<close>

text \<open>
  Claim C8. A click on the Show Fabric switch changes \<open>showFabric\<close> and nothing else; a
  click on a model chip changes the model of the weight-loss demo and nothing else; a click
  on a time-point chip changes the time point of the drivers demo and nothing else. The
  state of every other fragment, and the table the comparison shows, stay as they were.
\<close>


theorem click_frame:
  "(weight_loss (handle ShowFabricToggle s) = weight_loss s
    \<and> pinned (handle ShowFabricToggle s) = pinned s
    \<and> drivers (handle ShowFabricToggle s) = drivers s
    \<and> openIdx (handle ShowFabricToggle s) = openIdx s
    \<and> pauseAnim (handle ShowFabricToggle s) = pauseAnim s
    \<and> showFabric (handle ShowFabricToggle s) = (\<not> showFabric s))
   \<and> (drivers (handle (ModelChip m) s) = drivers s
    \<and> showFabric (handle (ModelChip m) s) = showFabric s
    \<and> openIdx (handle (ModelChip m) s) = openIdx s
    \<and> pauseAnim (handle (ModelChip m) s) = pauseAnim s
    \<and> pinned (handle (ModelChip m) s) = pinned s
    \<and> AzureComparison (showFabric (handle (ModelChip m) s)) = AzureComparison (showFabric s)
    \<and> weight_loss (handle (ModelChip m) s) = (weight_loss s)\<lparr>wl_model := m\<rparr>)
   \<and> (weight_loss (handle (TimePointChip d) s) = weight_loss s
    \<and> pinned (handle (TimePointChip d) s) = pinned s
    \<and> showFabric (handle (TimePointChip d) s) = showFabric s
    \<and> openIdx (handle (TimePointChip d) s) = openIdx s
    \<and> pauseAnim (handle (TimePointChip d) s) = pauseAnim s
    \<and> AzureComparison (showFabric (handle (TimePointChip d) s)) = AzureComparison (showFabric s)
    \<and> drivers (handle (TimePointChip d) s) = (drivers s)\<lparr>dl_tp := d\<rparr>)"
  by (simp add: Toggle_click_def Chip_click_def setShowFabric_def setModel_def setTp_def)

end
